theory Spec2Isabelle
  imports Complex_Main "HOL-Library.Sublist"
begin

section \<open>JavaScript numbers\<close>

text \<open>
  A JavaScript \<^verbatim>\<open>number\<close> is an IEEE 754 binary64 value.  The finite ones are
  modelled as the real numbers they denote, and every arithmetic operation of the source
  is followed by the rounding the machine performs: to the nearest value with a 53-bit
  significand, ties to the even significand (\<open>fl64\<close>).  The exponent range is taken as
  unbounded: overflow, subnormal numbers, NaN and the infinities are not modelled.
\<close>

fun ilog2 :: "nat \<Rightarrow> nat" where
  "ilog2 n = (if n < 2 then 0 else Suc (ilog2 (n div 2)))"

declare ilog2.simps [simp del]

text \<open>The binary exponent of a positive number: \<open>2 powi binade x \<le> x < 2 powi (binade x + 1)\<close>.\<close>

definition binade :: "real \<Rightarrow> int" where
  "binade x = (if 1 \<le> x then int (ilog2 (nat \<lfloor>x\<rfloor>))
               else - int (ilog2 (nat (\<lceil>1 / x\<rceil> - 1))) - 1)"

text \<open>The spacing of the binary64 values in the binade of \<open>x\<close>.\<close>

definition ulp :: "real \<Rightarrow> real" where
  "ulp x = 2 powi (binade x - 52)"

definition round_even :: "real \<Rightarrow> int" where
  "round_even y = (let f = \<lfloor>y\<rfloor>; r = y - of_int f in
     if r < 1/2 then f else if 1/2 < r then f + 1 else if even f then f else f + 1)"

definition fl64 :: "real \<Rightarrow> real" where
  "fl64 x = (if x = 0 then 0
             else sgn x * (of_int (round_even (\<bar>x\<bar> / ulp \<bar>x\<bar>)) * ulp \<bar>x\<bar>))"

definition num_add :: "real \<Rightarrow> real \<Rightarrow> real" where
  "num_add a b = fl64 (a + b)"

definition num_sub :: "real \<Rightarrow> real \<Rightarrow> real" where
  "num_sub a b = fl64 (a - b)"

definition num_mul :: "real \<Rightarrow> real \<Rightarrow> real" where
  "num_mul a b = fl64 (a * b)"

definition num_div :: "real \<Rightarrow> real \<Rightarrow> real" where
  "num_div a b = fl64 (a / b)"

text \<open>
  \<^verbatim>\<open>Math.floor\<close> and \<^verbatim>\<open>Math.round\<close> are exact: the largest integer not above
  the argument, and the integer nearest to it with ties going up.
\<close>

definition Math_floor :: "real \<Rightarrow> int" where
  "Math_floor x = \<lfloor>x\<rfloor>"

definition Math_round :: "real \<Rightarrow> int" where
  "Math_round x = \<lfloor>x + 1 / 2\<rfloor>"

section \<open>Arrays and strings\<close>

text \<open>
  Reading a JavaScript array outside its bounds yields \<^verbatim>\<open>undefined\<close> and does not
  fail; \<open>None\<close> stands for \<^verbatim>\<open>undefined\<close>.
\<close>

definition js_index :: "'a list \<Rightarrow> int \<Rightarrow> 'a option" where
  "js_index xs i = (if 0 \<le> i \<and> i < int (length xs) then Some (xs ! nat i) else None)"

text \<open>\<^verbatim>\<open>xs.slice(0, end)\<close>: a negative \<open>end\<close> counts from the end of the array.\<close>

definition slice0 :: "'a list \<Rightarrow> int \<Rightarrow> 'a list" where
  "slice0 xs e = (if e < 0 then take (nat (int (length xs) + e)) xs else take (nat e) xs)"

text \<open>
  A JavaScript string is a sequence of UTF-16 code units.  Text that comes from outside
  (the typed identifier and the coin directory) is a list over a type \<open>'c\<close> of code
  units that the model leaves open; the literals of the program are lists of
  characters.  \<^verbatim>\<open>String.prototype.toLowerCase\<close> follows the Unicode case mapping and
  may change the length of a string; it is a parameter, \<open>toLowerCase\<close>, of every
  function that uses it.  On ASCII text it is \<open>toLowerCase_ascii\<close>, which maps
  \<^verbatim>\<open>A\<close>..\<^verbatim>\<open>Z\<close> to \<^verbatim>\<open>a\<close>..\<^verbatim>\<open>z\<close> and leaves every other character alone.
  \<^verbatim>\<open>hay.includes(needle)\<close> holds when \<open>needle\<close> occurs in \<open>hay\<close> as a contiguous
  block.
\<close>

definition lower_char :: "char \<Rightarrow> char" where
  "lower_char c =
     (let n = of_char c :: nat in if 65 \<le> n \<and> n \<le> 90 then char_of (n + 32) else c)"

definition toLowerCase_ascii :: "string \<Rightarrow> string" where
  "toLowerCase_ascii s = map lower_char s"

fun str_includes :: "'a list \<Rightarrow> 'a list \<Rightarrow> bool" where
  "str_includes [] needle = (needle = [])"
| "str_includes (c # cs) needle = (prefix needle (c # cs) \<or> str_includes cs needle)"

text \<open>The decimal digits of a natural number, without leading zeros.\<close>

definition digit_char :: "nat \<Rightarrow> char" where
  "digit_char d = ''0123456789'' ! d"

fun digits :: "nat \<Rightarrow> string" where
  "digits n = (if n < 10 then [digit_char n] else digits (n div 10) @ [digit_char (n mod 10)])"

declare digits.simps [simp del]

text \<open>
  \<^verbatim>\<open>Number.prototype.toFixed(f)\<close> as ECMAScript defines it.  Below \<open>10^21\<close> the
  result is positional (\<open>fixed_digits\<close>): the integer \<open>n\<close> for which \<open>n / 10^f\<close> is
  nearest to the exact value of the number (the larger one on a tie) is written in
  decimal, padded with zeros to at least \<open>f + 1\<close> digits, and the point is put before
  the last \<open>f\<close> digits.  From \<open>10^21\<close> on \<^verbatim>\<open>toFixed\<close> returns what the conversion of a
  number to a string returns.  That conversion (which also expands \<^verbatim>\<open>${...}\<close> in a
  template literal) prints the shortest decimal that reads back as the same binary64
  value; it is a parameter, \<open>numberToString\<close>, of every function that uses it.
\<close>

definition fixed_digits :: "nat \<Rightarrow> real \<Rightarrow> string" where
  "fixed_digits f x =
     (let n = nat \<lfloor>x * 10 ^ f + 1 / 2\<rfloor>;
          m = digits n
      in if f = 0 then m
         else
           let m = (if length m \<le> f then replicate (f + 1 - length m) CHR ''0'' @ m else m);
               k = length m
           in take (k - f) m @ ''.'' @ drop (k - f) m)"

definition toFixed :: "(real \<Rightarrow> string) \<Rightarrow> nat \<Rightarrow> real \<Rightarrow> string" where
  "toFixed numberToString f x =
     (let s = (if x < 0 then ''-'' else []);
          x = \<bar>x\<bar>
      in if 10 ^ 21 \<le> x then s @ numberToString x else s @ fixed_digits f x)"

text \<open>
  \<^verbatim>\<open>toLocaleString()\<close>, called with no argument, formats a number in the locale of
  the host, which the program does not choose: it is a parameter, \<open>toLocaleString\<close>, of
  the function that uses it.  Two hosts, on integral numbers: under \<^verbatim>\<open>en-US\<close> the
  decimal digits are written in groups of three separated by commas, under
  \<^verbatim>\<open>de-DE\<close> in groups of three separated by points.
\<close>

function group3 :: "char \<Rightarrow> string \<Rightarrow> string" where
  "group3 sep ds = (if length ds \<le> 3 then ds
                    else group3 sep (take (length ds - 3) ds) @ [sep] @ drop (length ds - 3) ds)"
  by pat_completeness auto
termination
  by (relation "measure (\<lambda>(sep, ds). length ds)") auto

declare group3.simps [simp del]

definition grouped :: "char \<Rightarrow> int \<Rightarrow> string" where
  "grouped sep k =
     (if k < 0 then ''-'' @ group3 sep (digits (nat (- k))) else group3 sep (digits (nat k)))"

definition toLocaleString_enUS :: "int \<Rightarrow> string" where
  "toLocaleString_enUS k = grouped CHR '','' k"

definition toLocaleString_deDE :: "int \<Rightarrow> string" where
  "toLocaleString_deDE k = grouped CHR ''.'' k"

section \<open>Suggestion matcher\<close>

text \<open>
  \<^verbatim>\<open>interface CoinInfo { id: string; symbol: string; name: string }\<close>; the fields carry
  the prefix \<open>coin_\<close> because \<open>id\<close> is the identity function of HOL.
\<close>

record 'c coinInfo =
  coin_id :: "'c list"
  coin_symbol :: "'c list"
  coin_name :: "'c list"

text \<open>The key of the comparator passed to \<^verbatim>\<open>matches.sort\<close>.\<close>

definition minFieldLength :: "'c coinInfo \<Rightarrow> nat" where
  "minFieldLength c =
     min (min (length (coin_id c)) (length (coin_symbol c))) (length (coin_name c))"

text \<open>
  \<^verbatim>\<open>getSuggestions(input, coins, max = 5)\<close>.  The comparator
  \<^verbatim>\<open>(a, b) => Math.min(...) - Math.min(...)\<close> orders by \<open>minFieldLength\<close>, and
  \<^verbatim>\<open>Array.prototype.sort\<close> is stable (ECMAScript 2019), so the sort is the stable sort
  by that key, \<open>sort_key\<close>.
\<close>

definition getSuggestions ::
  "('c list \<Rightarrow> 'c list) \<Rightarrow> 'c list \<Rightarrow> 'c coinInfo list \<Rightarrow> int \<Rightarrow> 'c coinInfo list" where
  "getSuggestions toLowerCase input coins max_results =
     (if input = [] then []
      else
        let lowerInput = toLowerCase input;
            matches = filter (\<lambda>coin.
                str_includes (toLowerCase (coin_id coin)) lowerInput
                \<or> str_includes (toLowerCase (coin_symbol coin)) lowerInput
                \<or> str_includes (toLowerCase (coin_name coin)) lowerInput) coins;
            matches = sort_key minFieldLength matches
        in slice0 matches max_results)"

definition defaultMax :: int where
  "defaultMax = 5"



text \<open>The two-coin directory of the example in the specification.\<close>

definition bitcoin :: "char coinInfo" where
  "bitcoin = \<lparr> coin_id = ''bitcoin'', coin_symbol = ''btc'', coin_name = ''Bitcoin'' \<rparr>"

definition bitcoin_cash :: "char coinInfo" where
  "bitcoin_cash =
     \<lparr> coin_id = ''bitcoin-cash'', coin_symbol = ''bch'', coin_name = ''Bitcoin Cash'' \<rparr>"








section \<open>Range fetcher\<close>

text \<open>
  The state hooks of the component.  A \<^verbatim>\<open>Date\<close> is its time value in milliseconds,
  \<open>None\<close> is \<^verbatim>\<open>null\<close>.
\<close>

record cryptoData =
  prices :: "(real \<times> real) list"

record 'c widget =
  startDate :: "int option"
  endDate :: "int option"
  cryptoName :: "'c list"
  graphData :: "cryptoData option"
  allCoins :: "'c coinInfo list"
  suggestions :: "'c coinInfo list"
  error :: "string option"
  gridLineCount :: nat

text \<open>
  The GET request that \<^verbatim>\<open>fetchCryptoData\<close> issues.  Its URL is the template literal
  \<^verbatim>\<open>https://api.coingecko.com/api/v3/coins/${cryptoName.toLowerCase()}/market_chart/range\<close>:
  the literal before the coin name, the lower-cased coin name and the literal after it.
\<close>

record 'c request =
  url_before :: string
  url_coin :: "'c list"
  url_after :: string
  vs_currency :: string
  from_seconds :: int
  to_seconds :: int

definition rangeRequest ::
  "('c list \<Rightarrow> 'c list) \<Rightarrow> 'c list \<Rightarrow> int \<Rightarrow> int \<Rightarrow> 'c request" where
  "rangeRequest toLowerCase name start_ms end_ms =
     \<lparr> url_before = ''https://api.coingecko.com/api/v3/coins/'',
       url_coin = toLowerCase name,
       url_after = ''/market_chart/range'',
       vs_currency = ''usd'',
       from_seconds = Math_floor (num_div (of_int start_ms) 1000),
       to_seconds = Math_floor (num_div (of_int end_ms) 1000) \<rparr>"

definition fetchErrorMessage :: string where
  "fetchErrorMessage =
     ''Token not found or API error. Please check the name or try a suggestion.''"

text \<open>
  \<^verbatim>\<open>fetchCryptoData\<close>.  The network is the parameter \<open>get\<close>: it answers a request
  with the response data, or with \<open>None\<close> when the promise is rejected.  The function
  gives the state after the handler has run to its end with no other update in between.
\<close>

definition fetchCryptoData ::
  "('c list \<Rightarrow> 'c list) \<Rightarrow> ('c request \<Rightarrow> cryptoData option) \<Rightarrow> 'c widget \<Rightarrow> 'c widget" where
  "fetchCryptoData toLowerCase get st =
     (case (startDate st, endDate st) of
        (Some start_ms, Some end_ms) \<Rightarrow>
          if cryptoName st = [] then st
          else
            let st1 = st\<lparr> error := None, suggestions := [], graphData := None \<rparr>
            in (case get (rangeRequest toLowerCase (cryptoName st) start_ms end_ms) of
                  Some response \<Rightarrow> st1\<lparr> graphData := Some response \<rparr>
                | None \<Rightarrow>
                    st1\<lparr> error := Some fetchErrorMessage,
                         suggestions :=
                           getSuggestions toLowerCase (cryptoName st) (allCoins st) defaultMax \<rparr>)
      | _ \<Rightarrow> st)"

text \<open>
  A state in which the three inputs are present, an earlier error is still shown and the
  directory holds the two example coins.
\<close>

definition idleWidget :: "char widget" where
  "idleWidget =
     \<lparr> startDate = Some 1700000000000, endDate = Some 1700086400000, cryptoName = ''bit'',
       graphData = None, allCoins = [bitcoin, bitcoin_cash], suggestions = [],
       error = Some ''old error'', gridLineCount = 6 \<rparr>"

section \<open>Chart geometry: downsampling\<close>

text \<open>
  \<^verbatim>\<open>downsampleData(data, targetPoints = 75)\<close>.  The loop
  \<^verbatim>\<open>for (let i = 1; i < targetPoints - 1; i++) result.push(data[Math.floor(i * step)])\<close>
  is \<open>downsample_loop\<close>; \<open>step\<close> is the rounded quotient \<^verbatim>\<open>data.length / targetPoints\<close>
  and each product \<^verbatim>\<open>i * step\<close> is rounded before \<^verbatim>\<open>Math.floor\<close> is taken.  The result
  is an array whose entries may be \<^verbatim>\<open>undefined\<close>, so the early return of \<open>data\<close> itself is
  \<open>map Some data\<close>.  When \<open>targetPoints \<le> 2\<close> the loop body never runs and \<open>step\<close>
  (which JavaScript computes as an infinity or a negative number for
  \<open>targetPoints \<le> 0\<close>) is not used.
\<close>

function downsample_loop ::
  "'a list \<Rightarrow> int \<Rightarrow> real \<Rightarrow> int \<Rightarrow> 'a option list \<Rightarrow> 'a option list" where
  "downsample_loop data targetPoints step i result =
     (if i < targetPoints - 1
      then
        let index = Math_floor (num_mul (of_int i) step)
        in downsample_loop data targetPoints step (i + 1) (result @ [js_index data index])
      else result)"
  by pat_completeness auto
termination
  by (relation "measure (\<lambda>(data, targetPoints, step, i, result). nat (targetPoints - 1 - i))")
    auto

declare downsample_loop.simps [simp del]

definition downsampleData :: "'a list \<Rightarrow> int \<Rightarrow> 'a option list" where
  "downsampleData data targetPoints =
     (if int (length data) \<le> targetPoints then map Some data
      else
        let step = num_div (real (length data)) (of_int targetPoints);
            result = [js_index data 0];
            result = downsample_loop data targetPoints step 1 result
        in result @ [js_index data (int (length data) - 1)])"

text \<open>The call of the chart component is \<^verbatim>\<open>downsampleData(prices)\<close>, with the default budget.\<close>

definition defaultTargetPoints :: int where
  "defaultTargetPoints = 75"

text \<open>
  The index that iteration \<open>i\<close> of the loop reads, for a series of \<open>n\<close> points, and
  the indices of all the points of the sampled series in order.
\<close>

definition sampleIndex :: "nat \<Rightarrow> int \<Rightarrow> int \<Rightarrow> int" where
  "sampleIndex n targetPoints i =
     Math_floor (num_mul (of_int i) (num_div (real n) (of_int targetPoints)))"

definition sampleIndices :: "nat \<Rightarrow> int \<Rightarrow> nat list" where
  "sampleIndices n targetPoints =
     0 # map (\<lambda>i. nat (sampleIndex n targetPoints i)) [1..targetPoints - 2] @ [n - 1]"

text \<open>
  The index nearest to the stride position \<open>i * (length / budget)\<close>, as the
  specification words the choice of an interior point (``nearest-index''); it is not
  part of the program.
\<close>

definition nearestIndex :: "nat \<Rightarrow> int \<Rightarrow> int \<Rightarrow> int" where
  "nearestIndex n targetPoints i = round (of_int i * (real n / of_int targetPoints))"

section \<open>Chart geometry: smoothing\<close>

text \<open>A chart point \<^verbatim>\<open>{x: number, y: number}\<close>.\<close>

record point =
  x_coord :: real
  y_coord :: real

text \<open>The literal \<^verbatim>\<open>0.2\<close> denotes the binary64 value nearest to one fifth.\<close>

definition tension :: real where
  "tension = fl64 (2 / 10)"

text \<open>
  \<^verbatim>\<open>createSmoothPath(points)\<close>.  Reading a coordinate of \<^verbatim>\<open>undefined\<close> throws a
  \<^verbatim>\<open>TypeError\<close>: the result is \<open>None\<close> when the loop reads a point outside the
  array.
\<close>

function smooth_loop ::
  "(real \<Rightarrow> string) \<Rightarrow> point list \<Rightarrow> nat \<Rightarrow> string \<Rightarrow> string option" where
  "smooth_loop numberToString points i path =
     (if int i < int (length points) - 1
      then
        (case (if i > 0 then js_index points (int i - 1) else js_index points 0,
               js_index points (int i),
               js_index points (int i + 1)) of
           (Some p0, Some p1, Some p2) \<Rightarrow>
             (case (if int i < int (length points) - 2 then js_index points (int i + 2)
                    else Some p2) of
                Some p3 \<Rightarrow>
                  let cp1x = num_add (x_coord p1)
                               (num_mul (num_sub (x_coord p2) (x_coord p0)) tension);
                      cp1y = num_add (y_coord p1)
                               (num_mul (num_sub (y_coord p2) (y_coord p0)) tension);
                      cp2x = num_sub (x_coord p2)
                               (num_mul (num_sub (x_coord p3) (x_coord p1)) tension);
                      cp2y = num_sub (y_coord p2)
                               (num_mul (num_sub (y_coord p3) (y_coord p1)) tension)
                  in smooth_loop numberToString points (i + 1)
                       (path @ '' C '' @ numberToString cp1x @ '' '' @ numberToString cp1y
                          @ '', '' @ numberToString cp2x @ '' '' @ numberToString cp2y
                          @ '', '' @ numberToString (x_coord p2)
                          @ '' '' @ numberToString (y_coord p2))
              | None \<Rightarrow> None)
         | _ \<Rightarrow> None)
      else Some path)"
  by pat_completeness auto
termination
  by (relation "measure (\<lambda>(numberToString, points, i, path). length points - i)") auto

declare smooth_loop.simps [simp del]

definition createSmoothPath :: "(real \<Rightarrow> string) \<Rightarrow> point list \<Rightarrow> string option" where
  "createSmoothPath numberToString points =
     (if length points < 2 then Some []
      else
        (case js_index points 0 of
           Some p \<Rightarrow>
             smooth_loop numberToString points 0
               (''M '' @ numberToString (x_coord p) @ '' '' @ numberToString (y_coord p))
         | None \<Rightarrow> None))"

text \<open>
  The commands of an SVG path as the function writes them: the move-to command that
  opens the path and the cubic Bezier command with its two control points and its end
  point.
\<close>

definition moveTo :: "(real \<Rightarrow> string) \<Rightarrow> point \<Rightarrow> string" where
  "moveTo numberToString p =
     ''M '' @ numberToString (x_coord p) @ '' '' @ numberToString (y_coord p)"

definition curveTo :: "(real \<Rightarrow> string) \<Rightarrow> point \<Rightarrow> point \<Rightarrow> point \<Rightarrow> string" where
  "curveTo numberToString c1 c2 p =
     '' C '' @ numberToString (x_coord c1) @ '' '' @ numberToString (y_coord c1)
       @ '', '' @ numberToString (x_coord c2) @ '' '' @ numberToString (y_coord c2)
       @ '', '' @ numberToString (x_coord p) @ '' '' @ numberToString (y_coord p)"

text \<open>
  The neighbours of a segment, in the words of the specification: an index outside a
  series of \<open>n\<close> points is mirrored at the end it passes, so that \<open>-1\<close> stands for
  \<open>0\<close> and \<open>n\<close> for \<open>n - 1\<close>.  With them, the two control points of segment \<open>i\<close>,
  which runs from point \<open>i\<close> to point \<open>i + 1\<close>.
\<close>

definition mirrorIndex :: "nat \<Rightarrow> int \<Rightarrow> nat" where
  "mirrorIndex n j =
     (if j < 0 then nat (- j - 1) else if int n \<le> j then nat (2 * int n - 1 - j) else nat j)"

definition controlPoint1 :: "point list \<Rightarrow> nat \<Rightarrow> point" where
  "controlPoint1 points i =
     (let p0 = points ! mirrorIndex (length points) (int i - 1);
          p1 = points ! i;
          p2 = points ! (i + 1)
      in \<lparr> x_coord = num_add (x_coord p1) (num_mul (num_sub (x_coord p2) (x_coord p0)) tension),
           y_coord = num_add (y_coord p1) (num_mul (num_sub (y_coord p2) (y_coord p0)) tension) \<rparr>)"

definition controlPoint2 :: "point list \<Rightarrow> nat \<Rightarrow> point" where
  "controlPoint2 points i =
     (let p1 = points ! i;
          p2 = points ! (i + 1);
          p3 = points ! mirrorIndex (length points) (int i + 2)
      in \<lparr> x_coord = num_sub (x_coord p2) (num_mul (num_sub (x_coord p3) (x_coord p1)) tension),
           y_coord = num_sub (y_coord p2) (num_mul (num_sub (y_coord p3) (y_coord p1)) tension) \<rparr>)"

definition segment :: "(real \<Rightarrow> string) \<Rightarrow> point list \<Rightarrow> nat \<Rightarrow> string" where
  "segment numberToString points i =
     curveTo numberToString (controlPoint1 points i) (controlPoint2 points i) (points ! (i + 1))"

text \<open>
  On an integral number below \<open>10^21\<close> the conversion of a number to a string gives
  the decimal digits of the integer; \<open>integerToString\<close> does so for every number, after
  cutting the fraction off, and serves as the conversion in examples with integral
  coordinates.
\<close>

definition integerToString :: "real \<Rightarrow> string" where
  "integerToString v = (if v < 0 then ''-'' else []) @ digits (nat \<lfloor>\<bar>v\<bar>\<rfloor>)"

text \<open>Two points whose control points are integral.\<close>

definition samplePoints :: "point list" where
  "samplePoints = [\<lparr> x_coord = 0, y_coord = 0 \<rparr>, \<lparr> x_coord = 5, y_coord = 10 \<rparr>]"

section \<open>Chart geometry: price labels\<close>

text \<open>
  \<^verbatim>\<open>formatCurrency(value)\<close>, with the conversion of a number to a string and the
  locale formatter of the host as parameters.
\<close>

definition formatCurrency :: "(real \<Rightarrow> string) \<Rightarrow> (int \<Rightarrow> string) \<Rightarrow> real \<Rightarrow> string" where
  "formatCurrency numberToString toLocaleString v =
     (if v \<ge> 1000000 then ''$'' @ toFixed numberToString 2 (num_div v 1000000) @ ''M''
      else if v \<ge> 10000 then ''$'' @ toLocaleString (Math_round v)
      else if v \<ge> 1 then ''$'' @ toFixed numberToString 2 v
      else ''$'' @ toFixed numberToString 5 v)"

text \<open>
  What ``\<open>x\<close> with \<open>f\<close> decimals'' means for a string: digits, a point, exactly
  \<open>f\<close> more digits, and the digits read as a whole give \<open>x * 10^f\<close> rounded to the
  nearest integer, the upper one on a tie.
\<close>

definition is_digit :: "char \<Rightarrow> bool" where
  "is_digit c \<longleftrightarrow> c \<in> set ''0123456789''"

definition digit_value :: "char \<Rightarrow> nat" where
  "digit_value c = of_char c - 48"

definition decimal_value :: "string \<Rightarrow> nat" where
  "decimal_value s = foldl (\<lambda>a c. 10 * a + digit_value c) 0 s"

definition rounded_decimal :: "nat \<Rightarrow> real \<Rightarrow> string \<Rightarrow> bool" where
  "rounded_decimal f x s \<longleftrightarrow>
     (let k = length s;
          ds = take (k - f - 1) s @ drop (k - f) s
      in f + 2 \<le> k \<and> s ! (k - f - 1) = CHR ''.''
         \<and> list_all is_digit ds
         \<and> int (decimal_value ds) = \<lfloor>x * 10 ^ f + 1 / 2\<rfloor>)"

section \<open>Rounding to binary64\<close>

text \<open>
  Facts about \<open>fl64\<close> on numbers from \<open>1\<close> on: it is monotone, it leaves the
  integers below \<open>2^53\<close> alone, and it moves a number by at most half the spacing of its
  binade.
\<close>

lemma ilog2_bounds: "0 < n \<Longrightarrow> 2 ^ ilog2 n \<le> n \<and> n < 2 ^ Suc (ilog2 n)"
proof (induction n rule: ilog2.induct)
  case (1 n)
  show ?case
  proof (cases "n < 2")
    case True
    with 1(2) have "n = 1" by simp
    then show ?thesis by (simp add: ilog2.simps)
  next
    case False
    then have "0 < n div 2" by simp
    with 1 False have IH: "2 ^ ilog2 (n div 2) \<le> n div 2 \<and> n div 2 < 2 ^ Suc (ilog2 (n div 2))"
      by simp
    have eq: "ilog2 n = Suc (ilog2 (n div 2))"
      using False by (subst ilog2.simps) simp
    from IH show ?thesis
      unfolding eq by (simp; arith)
  qed
qed

lemma ilog2_mono: "m \<le> n \<Longrightarrow> ilog2 m \<le> ilog2 n"
proof (induction n arbitrary: m rule: ilog2.induct)
  case (1 n)
  show ?case
  proof (cases "m < 2")
    case True
    then show ?thesis by (subst ilog2.simps) simp
  next
    case False
    with 1(2) have n2: "\<not> n < 2" by simp
    have "m div 2 \<le> n div 2" using 1(2) by (rule div_le_mono)
    with 1(1) n2 have "ilog2 (m div 2) \<le> ilog2 (n div 2)" by simp
    then show ?thesis
      using False n2 by (subst ilog2.simps, subst (2) ilog2.simps) simp
  qed
qed

lemma round_even_err: "\<bar>of_int (round_even y) - y\<bar> \<le> 1/2"
  unfolding round_even_def Let_def by (auto; linarith)

lemma round_even_int [simp]: "round_even (of_int k) = k"
  unfolding round_even_def Let_def by simp

lemma round_even_ge: "of_int m - 1/2 < y \<Longrightarrow> m \<le> round_even y"
  unfolding round_even_def Let_def by (auto; linarith)

lemma round_even_le: "y < of_int m + 1/2 \<Longrightarrow> round_even y \<le> m"
  unfolding round_even_def Let_def by (auto; linarith)

lemma round_even_range: "\<lfloor>y\<rfloor> \<le> round_even y \<and> round_even y \<le> \<lfloor>y\<rfloor> + 1"
  unfolding round_even_def Let_def by auto

lemma round_even_mono: "a \<le> b \<Longrightarrow> round_even a \<le> round_even b"
proof -
  assume ab: "a \<le> b"
  then have fl: "\<lfloor>a\<rfloor> \<le> \<lfloor>b\<rfloor>" by (rule floor_mono)
  show ?thesis
  proof (cases "\<lfloor>a\<rfloor> = \<lfloor>b\<rfloor>")
    case True
    with ab show ?thesis
      unfolding round_even_def Let_def by auto
  next
    case False
    with fl have "\<lfloor>a\<rfloor> + 1 \<le> \<lfloor>b\<rfloor>" by simp
    with round_even_range [of a] round_even_range [of b] show ?thesis by linarith
  qed
qed

lemma binade_ge1: "1 \<le> x \<Longrightarrow> binade x = int (ilog2 (nat \<lfloor>x\<rfloor>))"
  by (simp add: binade_def)

lemma binade_bounds:
  assumes "1 \<le> x"
  shows "2 ^ nat (binade x) \<le> x" and "x < 2 ^ Suc (nat (binade x))" and "0 \<le> binade x"
proof -
  let ?n = "nat \<lfloor>x\<rfloor>"
  from assms have n: "0 < ?n" by simp
  have e: "nat (binade x) = ilog2 ?n" using assms by (simp add: binade_ge1)
  from ilog2_bounds [OF n] have lo: "2 ^ ilog2 ?n \<le> ?n" and hi: "?n < 2 ^ Suc (ilog2 ?n)"
    by simp_all
  have "real ?n \<le> x" using assms by simp
  moreover from lo have "(2::real) ^ ilog2 ?n \<le> real ?n"
    by (metis of_nat_le_iff of_nat_numeral of_nat_power)
  ultimately show "2 ^ nat (binade x) \<le> x" unfolding e by linarith
  from hi have "Suc ?n \<le> 2 ^ Suc (ilog2 ?n)" by simp
  then have "real (Suc ?n) \<le> (2::real) ^ Suc (ilog2 ?n)"
    by (metis of_nat_le_iff of_nat_numeral of_nat_power)
  moreover have "x < real (Suc ?n)" using assms by simp linarith
  ultimately show "x < 2 ^ Suc (nat (binade x))" unfolding e by linarith
  show "0 \<le> binade x" using assms by (simp add: binade_ge1)
qed

lemma binade_mono: "1 \<le> x \<Longrightarrow> x \<le> y \<Longrightarrow> binade x \<le> binade y"
  by (simp add: binade_ge1 ilog2_mono floor_mono nat_mono)

lemma ulp_pos: "0 < ulp x"
  by (simp add: ulp_def)

lemma ulp_mono: "1 \<le> x \<Longrightarrow> x \<le> y \<Longrightarrow> ulp x \<le> ulp y"
  unfolding ulp_def by (intro power_int_increasing) (simp_all add: binade_mono)

lemma fl64_ge1: "1 \<le> x \<Longrightarrow> fl64 x = of_int (round_even (x / ulp x)) * ulp x"
  by (simp add: fl64_def)

lemma ulp_scale: "1 \<le> x \<Longrightarrow> ulp x * 2 ^ 52 = 2 ^ nat (binade x)"
proof -
  assume "1 \<le> x"
  then have nn: "0 \<le> binade x" by (rule binade_bounds)
  have "ulp x * 2 ^ 52 = 2 powi (binade x - 52) * 2 powi 52"
    by (simp add: ulp_def)
  also have "\<dots> = 2 powi (binade x - 52 + 52)"
    by (subst power_int_add) simp_all
  also have "\<dots> = 2 ^ nat (binade x)"
    using nn by (simp add: power_int_def)
  finally show ?thesis .
qed

lemma quot_bounds:
  assumes "1 \<le> x"
  shows "2 ^ 52 \<le> x / ulp x" and "x / ulp x < 2 ^ 53"
proof -
  have sc: "ulp x * 2 ^ 52 = 2 ^ nat (binade x)" using assms by (rule ulp_scale)
  have up: "0 < ulp x" by (rule ulp_pos)
  from binade_bounds(1) [OF assms] sc have "2 ^ 52 * ulp x \<le> x" by (simp add: mult.commute)
  with up show "2 ^ 52 \<le> x / ulp x" by (simp add: pos_le_divide_eq)
  from binade_bounds(2) [OF assms] sc have "x < 2 ^ 53 * ulp x" by simp
  with up show "x / ulp x < 2 ^ 53" by (simp add: pos_divide_less_eq)
qed

lemma round_quot_bounds:
  assumes "1 \<le> x"
  shows "2 ^ 52 \<le> round_even (x / ulp x)" and "round_even (x / ulp x) \<le> 2 ^ 53"
proof -
  have "round_even (of_int (2 ^ 52)) \<le> round_even (x / ulp x)"
    using quot_bounds(1) [OF assms] by (intro round_even_mono) simp
  then show "2 ^ 52 \<le> round_even (x / ulp x)" by (simp only: round_even_int)
  have "round_even (x / ulp x) \<le> round_even (of_int (2 ^ 53))"
    using quot_bounds(2) [OF assms] by (intro round_even_mono) simp
  then show "round_even (x / ulp x) \<le> 2 ^ 53" by (simp only: round_even_int)
qed

lemma fl64_bounds:
  assumes "1 \<le> x"
  shows "2 ^ nat (binade x) \<le> fl64 x" and "fl64 x \<le> 2 ^ Suc (nat (binade x))"
proof -
  have sc: "ulp x * 2 ^ 52 = 2 ^ nat (binade x)" using assms by (rule ulp_scale)
  have up: "0 < ulp x" by (rule ulp_pos)
  have "(2::real) ^ 52 \<le> of_int (round_even (x / ulp x))"
    using round_quot_bounds(1) [OF assms] by (metis of_int_le_iff of_int_numeral of_int_power)
  then have "2 ^ 52 * ulp x \<le> of_int (round_even (x / ulp x)) * ulp x"
    using up by (simp only: mult_le_cancel_right_pos)
  then show "2 ^ nat (binade x) \<le> fl64 x"
    using sc by (simp add: fl64_ge1 [OF assms] mult.commute)
  have "of_int (round_even (x / ulp x)) \<le> (2::real) ^ 53"
    using round_quot_bounds(2) [OF assms] by (metis of_int_le_iff of_int_numeral of_int_power)
  then have "of_int (round_even (x / ulp x)) * ulp x \<le> 2 ^ 53 * ulp x"
    using up by (simp only: mult_le_cancel_right_pos)
  then show "fl64 x \<le> 2 ^ Suc (nat (binade x))"
    using sc by (simp add: fl64_ge1 [OF assms])
qed

lemma fl64_mono:
  assumes "1 \<le> x" and "x \<le> y"
  shows "fl64 x \<le> fl64 y"
proof -
  from assms have y1: "1 \<le> y" by simp
  have le: "binade x \<le> binade y" using assms by (rule binade_mono)
  show ?thesis
  proof (cases "binade x = binade y")
    case True
    then have u: "ulp x = ulp y" by (simp add: ulp_def)
    have "x / ulp y \<le> y / ulp y"
      using assms(2) ulp_pos [of y] by (simp add: divide_right_mono)
    then have "round_even (x / ulp y) \<le> round_even (y / ulp y)" by (rule round_even_mono)
    then have "real_of_int (round_even (x / ulp y)) * ulp y \<le> real_of_int (round_even (y / ulp y)) * ulp y"
      using ulp_pos [of y] by (simp only: mult_le_cancel_right_pos of_int_le_iff)
    then show ?thesis by (simp add: fl64_ge1 [OF assms(1)] fl64_ge1 [OF y1] u)
  next
    case False
    with le have "Suc (nat (binade x)) \<le> nat (binade y)"
      using binade_bounds(3) [OF assms(1)] by simp
    then have "(2::real) ^ Suc (nat (binade x)) \<le> 2 ^ nat (binade y)"
      by (intro power_increasing) simp_all
    with fl64_bounds(2) [OF assms(1)] fl64_bounds(1) [OF y1] show ?thesis by linarith
  qed
qed

lemma fl64_err:
  assumes "1 \<le> x"
  shows "\<bar>fl64 x - x\<bar> \<le> ulp x / 2"
proof -
  have up: "0 < ulp x" by (rule ulp_pos)
  have "fl64 x - x = (of_int (round_even (x / ulp x)) - x / ulp x) * ulp x"
    using up by (simp add: fl64_ge1 [OF assms] left_diff_distrib)
  then have "\<bar>fl64 x - x\<bar> = \<bar>of_int (round_even (x / ulp x)) - x / ulp x\<bar> * ulp x"
    using up by (simp add: abs_mult)
  also have "\<dots> \<le> 1/2 * ulp x"
    using round_even_err [of "x / ulp x"] up by (simp only: mult_le_cancel_right_pos)
  finally show ?thesis by simp
qed

lemma ulp_le: "1 \<le> x \<Longrightarrow> ulp x \<le> x / 2 ^ 52"
proof -
  assume x: "1 \<le> x"
  from binade_bounds(1) [OF x] ulp_scale [OF x] have "ulp x * 2 ^ 52 \<le> x" by simp
  then show ?thesis by (simp add: pos_le_divide_eq)
qed

lemma ulp_inv:
  assumes "1 \<le> x" and "x < 2 ^ 53"
  shows "ulp x * 2 ^ (52 - nat (binade x)) = 1"
proof -
  from binade_bounds(1) [OF assms(1)] assms(2) have "(2::real) ^ nat (binade x) < 2 ^ 53"
    by linarith
  then have e: "nat (binade x) < 53"
    by (simp only: power_strict_increasing_iff one_less_numeral_iff semiring_norm)
  define d where "d = 52 - nat (binade x)"
  have A: "ulp x * 2 ^ 52 = 2 ^ nat (binade x)" using assms(1) by (rule ulp_scale)
  have B: "2 ^ nat (binade x) * 2 ^ d = (2::real) ^ 52"
    using e unfolding d_def by (simp only: flip: power_add) simp
  have "(ulp x * 2 ^ d) * (2::real) ^ 52 = (ulp x * 2 ^ 52) * 2 ^ d"
    by (simp only: ac_simps)
  also have "\<dots> = 2 ^ 52" by (simp only: A B)
  finally show ?thesis unfolding d_def by simp
qed

lemma int_over_ulp:
  assumes "1 \<le> x" and "x < 2 ^ 53"
  shows "of_int k / ulp x = of_int (k * 2 ^ (52 - nat (binade x)))"
proof -
  let ?d = "52 - nat (binade x)"
  have ud: "ulp x * 2 ^ ?d = 1" using assms by (rule ulp_inv)
  have "real_of_int k / ulp x = of_int k * (ulp x * 2 ^ ?d) / ulp x"
    by (simp only: ud mult_1_right)
  also have "\<dots> = of_int k * 2 ^ ?d"
    using ulp_pos [of x] by simp
  finally show ?thesis by simp
qed

lemma fl64_int:
  assumes "1 \<le> k" and "k < 2 ^ 53"
  shows "fl64 (of_int k) = of_int k"
proof -
  let ?x = "real_of_int k"
  let ?d = "52 - nat (binade ?x)"
  have x1: "1 \<le> ?x" using assms(1) by simp
  have x2: "?x < 2 ^ 53"
    using assms(2) by (metis of_int_less_iff of_int_numeral of_int_power)
  have ud: "ulp ?x * 2 ^ ?d = 1" using x1 x2 by (rule ulp_inv)
  have "round_even (?x / ulp ?x) = k * 2 ^ ?d"
    by (simp only: int_over_ulp [OF x1 x2] round_even_int)
  then have "fl64 ?x = of_int (k * 2 ^ ?d) * ulp ?x" by (simp only: fl64_ge1 [OF x1])
  also have "\<dots> = ?x * (ulp ?x * 2 ^ ?d)" by simp
  finally show ?thesis by (simp only: ud mult_1_right)
qed

lemma fl64_ge_int:
  assumes "1 \<le> k" and "of_int k \<le> x" and "x < 2 ^ 53"
  shows "of_int k \<le> fl64 x"
proof -
  have "real_of_int k < 2 ^ 53" using assms by linarith
  then have "k < 2 ^ 53" by (metis of_int_less_iff of_int_numeral of_int_power)
  with assms(1) have "fl64 (of_int k) = of_int k" by (rule fl64_int)
  moreover have "fl64 (of_int k) \<le> fl64 x"
    using assms by (intro fl64_mono) simp_all
  ultimately show ?thesis by simp
qed

lemma floor_fl64_strict:
  assumes a: "1 \<le> a" and gap: "a + 1 < b" and b: "b < 2 ^ 53"
  shows "\<lfloor>fl64 a\<rfloor> < \<lfloor>fl64 b\<rfloor>"
proof -
  define k where "k = \<lfloor>fl64 a\<rfloor>"
  have b1: "1 \<le> b" using a gap by linarith
  have "of_int 1 \<le> fl64 a"
    using a gap b by (intro fl64_ge_int) simp_all
  then have k1: "1 \<le> k" unfolding k_def by (simp add: le_floor_iff)
  have ka: "of_int k \<le> fl64 a" unfolding k_def by simp
  have "of_int (k + 1) \<le> fl64 b"
  proof (cases "of_int (k + 1) \<le> b")
    case True
    with k1 b show ?thesis by (intro fl64_ge_int) simp_all
  next
    case False
    let ?d = "52 - nat (binade b)"
    let ?m = "(k + 1) * 2 ^ ?d"
    have ub: "0 < ulp b" by (rule ulp_pos)
    have "fl64 a - a \<le> ulp a / 2"
      using fl64_err [OF a] by linarith
    moreover have "ulp a \<le> ulp b"
      using a gap by (intro ulp_mono) simp_all
    ultimately have "of_int (k + 1) - ulp b / 2 < b"
      using ka gap by simp
    then have "(of_int (k + 1) - ulp b / 2) / ulp b < b / ulp b"
      using ub by (simp only: divide_strict_right_mono)
    moreover have "(of_int (k + 1) - ulp b / 2) / ulp b = of_int (k + 1) / ulp b - 1 / 2"
      using ub by (simp add: diff_divide_distrib)
    ultimately have "of_int ?m - 1 / 2 < b / ulp b"
      by (simp only: int_over_ulp [OF b1 b])
    then have "?m \<le> round_even (b / ulp b)" by (rule round_even_ge)
    then have "real_of_int ?m * ulp b \<le> of_int (round_even (b / ulp b)) * ulp b"
      using ub by (simp only: mult_le_cancel_right_pos of_int_le_iff)
    moreover have "real_of_int ?m * ulp b = of_int (k + 1) * (ulp b * 2 ^ ?d)"
      by simp
    ultimately show ?thesis
      by (simp only: ulp_inv [OF b1 b] mult_1_right fl64_ge1 [OF b1])
  qed
  then have "k + 1 \<le> \<lfloor>fl64 b\<rfloor>" by (simp only: le_floor_iff)
  then show ?thesis unfolding k_def by simp
qed

lemma fl64_upper:
  assumes "1 \<le> x"
  shows "fl64 x \<le> x + x / 2 ^ 53"
proof -
  have a: "fl64 x - x \<le> ulp x / 2"
    using fl64_err [OF assms] by linarith
  have "ulp x / 2 \<le> (x / 2 ^ 52) / 2"
    using ulp_le [OF assms] by (simp only: divide_right_mono zero_le_numeral)
  also have "\<dots> = x / 2 ^ 53" by simp
  finally show ?thesis using a by linarith
qed

section \<open>Properties of downsampling\<close>

lemma downsample_loop_closed:
  "downsample_loop data t step i result =
     result @ map (\<lambda>j. js_index data (Math_floor (num_mul (of_int j) step))) [i..t - 2]"
proof (induction data t step i result rule: downsample_loop.induct)
  case (1 data t step i result)
  show ?case
  proof (cases "i < t - 1")
    case True
    then have "[i..t - 2] = i # [i + 1..t - 2]"
      by (simp add: upto_rec1)
    with True 1 show ?thesis
      by (subst downsample_loop.simps) simp
  next
    case False
    then show ?thesis
      by (subst downsample_loop.simps) simp
  qed
qed

lemma downsampleData_long:
  assumes "targetPoints < int (length data)"
  shows "downsampleData data targetPoints =
           js_index data 0
             # map (\<lambda>j. js_index data (sampleIndex (length data) targetPoints j))
                 [1..targetPoints - 2]
             @ [js_index data (int (length data) - 1)]"
  using assms by (simp add: downsampleData_def downsample_loop_closed sampleIndex_def)

lemma js_index_first: "xs \<noteq> [] \<Longrightarrow> js_index xs 0 = Some (hd xs)"
  by (cases xs) (simp_all add: js_index_def)

lemma js_index_last: "xs \<noteq> [] \<Longrightarrow> js_index xs (int (length xs) - 1) = Some (last xs)"
proof -
  assume ne: "xs \<noteq> []"
  then have "nat (int (length xs) - 1) = length xs - 1"
    by simp
  with ne show ?thesis
    by (simp add: js_index_def last_conv_nth)
qed

text \<open>
  Claim C2.  A series shorter than the point budget is returned unchanged: every entry
  of the result is the entry of the input at the same position.
\<close>

theorem downsampleData_short_identity:
  "int (length data) < targetPoints \<Longrightarrow> downsampleData data targetPoints = map Some data"
  by (simp add: downsampleData_def)

theorem downsampleData_short_identity_witness:
  "int (length [(1::real, 10::real), (2, 20)]) < defaultTargetPoints
   \<and> downsampleData [(1::real, 10::real), (2, 20)] defaultTargetPoints
       = [Some (1, 10), Some (2, 20)]"
  using downsampleData_short_identity [of "[(1::real, 10::real), (2, 20)]" defaultTargetPoints]
  by (simp add: defaultTargetPoints_def)

text \<open>
  Claim C3.  For a non-empty series and any budget, the first entry of the sampled
  series is the first raw point and its last entry is the last raw point.
\<close>

theorem downsampleData_endpoints:
  "data \<noteq> [] \<Longrightarrow>
     hd (downsampleData data targetPoints) = Some (hd data)
     \<and> last (downsampleData data targetPoints) = Some (last data)"
proof (cases "int (length data) \<le> targetPoints")
  case True
  assume "data \<noteq> []"
  with True show ?thesis
    by (simp add: downsampleData_def hd_map last_map)
next
  case False
  assume ne: "data \<noteq> []"
  from False have "targetPoints < int (length data)"
    by simp
  then show ?thesis
    by (simp add: downsampleData_long js_index_first [OF ne] js_index_last [OF ne])
qed

theorem downsampleData_endpoints_witness:
  "[1::nat, 2, 3, 4, 5] \<noteq> []
   \<and> hd (downsampleData [1::nat, 2, 3, 4, 5] 3) = Some 1
   \<and> last (downsampleData [1::nat, 2, 3, 4, 5] 3) = Some 5"
  using downsampleData_endpoints [of "[1::nat, 2, 3, 4, 5]" 3]
  by simp

text \<open>
  The indices the loop reads.  For a series longer than the budget the stride is above
  \<open>1\<close> after rounding, so the floors of the rounded products grow strictly and stay
  strictly between the first and the last index.  A JavaScript array has fewer than
  \<open>2^32\<close> entries.
\<close>

lemma fl64_one_plus: "fl64 (1 + 1 / 2 ^ 52) = 1 + 1 / 2 ^ 52"
  by (simp add: fl64_def ulp_def binade_def ilog2.simps round_even_def)

lemma step_gt1:
  assumes "1 \<le> t" and "t < int n" and "n < 2 ^ 32"
  shows "1 < num_div (real n) (of_int t)"
proof -
  have tpos: "0 < real_of_int t" using assms(1) by simp
  have "real_of_int t + 1 \<le> real n" using assms(2) by linarith
  then have "(real_of_int t + 1) / of_int t \<le> real n / of_int t"
    using tpos by (simp only: divide_right_mono less_imp_le)
  moreover have "(real_of_int t + 1) / of_int t = 1 + 1 / of_int t"
    using tpos by (simp add: add_divide_distrib)
  moreover have "1 / 2 ^ 52 \<le> 1 / real_of_int t"
  proof -
    have "real_of_int t < real n" using assms(2) by linarith
    also have "real n < 2 ^ 32" using assms(3)
      by (metis of_nat_less_iff of_nat_numeral of_nat_power)
    finally have "real_of_int t \<le> 2 ^ 52" by simp
    with tpos show ?thesis by (simp add: frac_le)
  qed
  ultimately have "1 + 1 / 2 ^ 52 \<le> real n / of_int t" by linarith
  then have "fl64 (1 + 1 / 2 ^ 52) \<le> fl64 (real n / of_int t)"
    by (intro fl64_mono) simp_all
  then show ?thesis by (simp only: fl64_one_plus num_div_def) simp
qed

lemma sample_product_bounds:
  assumes "1 \<le> t" and "t < int n" and "n < 2 ^ 32" and "1 \<le> i" and "i \<le> t - 2"
  shows "1 \<le> of_int i * num_div (real n) (of_int t)"
    and "of_int i * num_div (real n) (of_int t) < real n - 2 + 1 / 2 ^ 20"
proof -
  let ?s = "num_div (real n) (of_int t)"
  let ?y = "real n / real_of_int t"
  have tpos: "0 < real_of_int t" using assms(1) by simp
  have s1: "1 < ?s" using assms(1-3) by (rule step_gt1)
  have i1: "1 \<le> real_of_int i" using assms(4) by simp
  have "1 * 1 \<le> real_of_int i * ?s"
    using i1 s1 by (intro mult_mono) simp_all
  then show "1 \<le> of_int i * ?s" by simp
  have y1: "1 \<le> ?y" using assms(2) tpos by (simp add: pos_le_divide_eq)
  have sy: "?s \<le> ?y + ?y / 2 ^ 53"
    unfolding num_div_def using y1 by (rule fl64_upper)
  have nlt: "real n < 2 ^ 32" using assms(3)
    by (metis of_nat_less_iff of_nat_numeral of_nat_power)
  define z where "z = (real_of_int t - 2) * ?y"
  have t2: "0 \<le> real_of_int t - 2" using assms(4,5) by linarith
  have "real_of_int i * ?s \<le> (real_of_int t - 2) * ?s"
    using assms(5) s1 by (intro mult_right_mono) simp_all
  also have "\<dots> \<le> (real_of_int t - 2) * (?y + ?y / 2 ^ 53)"
    using sy t2 by (rule mult_left_mono)
  also have "\<dots> = z + z / 2 ^ 53"
    unfolding z_def by (simp add: distrib_left)
  finally have xz: "real_of_int i * ?s \<le> z + z / 2 ^ 53" .
  have "z = real n - 2 * ?y"
    unfolding z_def using tpos by (simp add: left_diff_distrib diff_divide_distrib)
  with y1 have zN: "z \<le> real n - 2" by linarith
  have "z / 2 ^ 53 \<le> (real n - 2) / 2 ^ 53"
    using zN by (simp only: divide_right_mono zero_le_power zero_le_numeral)
  also have "\<dots> < 2 ^ 32 / 2 ^ 53"
    using nlt by (intro divide_strict_right_mono) simp_all
  also have "\<dots> < (1::real) / 2 ^ 20" by simp
  finally have "z / 2 ^ 53 < 1 / 2 ^ 20" .
  with xz zN show "of_int i * ?s < real n - 2 + 1 / 2 ^ 20" by linarith
qed

lemma sampleIndex_range:
  assumes "1 \<le> t" and "t < int n" and "n < 2 ^ 32" and "1 \<le> i" and "i \<le> t - 2"
  shows "1 \<le> sampleIndex n t i" and "sampleIndex n t i \<le> int n - 2"
proof -
  let ?x = "of_int i * num_div (real n) (of_int t)"
  have x1: "1 \<le> ?x" and xu: "?x < real n - 2 + 1 / 2 ^ 20"
    using assms by (rule sample_product_bounds)+
  have nlt: "real n < 2 ^ 32" using assms(3)
    by (metis of_nat_less_iff of_nat_numeral of_nat_power)
  have x53: "?x < 2 ^ 53" using xu nlt by simp
  have "of_int 1 \<le> fl64 ?x"
    using x1 x53 by (intro fl64_ge_int) simp_all
  then show "1 \<le> sampleIndex n t i"
    by (simp add: sampleIndex_def Math_floor_def num_mul_def le_floor_iff)
  have "?x / 2 ^ 53 < 2 ^ 32 / 2 ^ 53"
    using xu nlt by (intro divide_strict_right_mono) simp_all
  also have "\<dots> < (1::real) / 2 ^ 20" by simp
  finally have "?x / 2 ^ 53 < 1 / 2 ^ 20" .
  with fl64_upper [OF x1] xu have "fl64 ?x < real n - 1" by simp
  then have "fl64 ?x < of_int (int n - 1)" by simp
  then have "\<lfloor>fl64 ?x\<rfloor> < int n - 1" by (simp only: floor_less_iff)
  then show "sampleIndex n t i \<le> int n - 2"
    by (simp add: sampleIndex_def Math_floor_def num_mul_def)
qed

lemma sampleIndex_strict:
  assumes "1 \<le> t" and "t < int n" and "n < 2 ^ 32" and "1 \<le> i" and "i < j" and "j \<le> t - 2"
  shows "sampleIndex n t i < sampleIndex n t j"
proof -
  let ?s = "num_div (real n) (of_int t)"
  have s1: "1 < ?s" using assms(1-3) by (rule step_gt1)
  have a1: "1 \<le> of_int i * ?s"
    using assms by (intro sample_product_bounds(1)) simp_all
  have "of_int j * ?s < real n - 2 + 1 / 2 ^ 20"
    using assms by (intro sample_product_bounds(2)) simp_all
  moreover have "real n < 2 ^ 32" using assms(3)
    by (metis of_nat_less_iff of_nat_numeral of_nat_power)
  ultimately have b53: "of_int j * ?s < 2 ^ 53" by simp
  have "real_of_int i + 1 \<le> real_of_int j" using assms(5) by linarith
  then have "(real_of_int i + 1) * ?s \<le> real_of_int j * ?s"
    using s1 by (intro mult_right_mono) simp_all
  then have "of_int i * ?s + 1 < of_int j * ?s"
    using s1 by (simp add: distrib_right)
  with a1 have "\<lfloor>fl64 (of_int i * ?s)\<rfloor> < \<lfloor>fl64 (of_int j * ?s)\<rfloor>"
    using b53 by (rule floor_fl64_strict)
  then show ?thesis
    by (simp add: sampleIndex_def Math_floor_def num_mul_def)
qed

lemma js_index_Some: "0 \<le> i \<Longrightarrow> i < int (length xs) \<Longrightarrow> js_index xs i = Some (xs ! nat i)"
  by (simp add: js_index_def)

lemma downsampleData_samples:
  assumes "0 \<le> targetPoints" and "targetPoints < int (length data)" and "length data < 2 ^ 32"
  shows "downsampleData data targetPoints =
           Some (hd data)
             # map (\<lambda>i. Some (data ! nat (sampleIndex (length data) targetPoints i)))
                 [1..targetPoints - 2]
             @ [Some (last data)]"
proof -
  have ne: "data \<noteq> []" using assms(1,2) by auto
  have "map (\<lambda>j. js_index data (sampleIndex (length data) targetPoints j)) [1..targetPoints - 2]
        = map (\<lambda>i. Some (data ! nat (sampleIndex (length data) targetPoints i)))
            [1..targetPoints - 2]"
  proof (rule map_cong [OF refl])
    fix i assume "i \<in> set [1..targetPoints - 2]"
    then have i: "1 \<le> i" "i \<le> targetPoints - 2" by simp_all
    then have t: "1 \<le> targetPoints" by linarith
    from sampleIndex_range [OF t assms(2,3) i]
    show "js_index data (sampleIndex (length data) targetPoints i)
          = Some (data ! nat (sampleIndex (length data) targetPoints i))"
      by (intro js_index_Some) simp_all
  qed
  then show ?thesis
    by (simp add: downsampleData_long [OF assms(2)] js_index_first [OF ne] js_index_last [OF ne])
qed

lemma downsampleData_indices:
  assumes "0 \<le> targetPoints" and "targetPoints < int (length data)" and "length data < 2 ^ 32"
  shows "downsampleData data targetPoints =
           map (\<lambda>k. Some (data ! k)) (sampleIndices (length data) targetPoints)"
proof -
  have ne: "data \<noteq> []" using assms(1,2) by auto
  then show ?thesis
    by (simp add: downsampleData_samples [OF assms] sampleIndices_def hd_conv_nth
        last_conv_nth comp_def)
qed

lemma length_sampleIndices: "2 \<le> t \<Longrightarrow> length (sampleIndices n t) = nat t"
  by (simp add: sampleIndices_def)

lemma sampleIndices_sorted:
  assumes "1 \<le> t" and "t < int n" and "n < 2 ^ 32"
  shows "sorted_wrt (<) (sampleIndices n t)"
proof -
  let ?f = "\<lambda>i. nat (sampleIndex n t i)"
  have rng: "1 \<le> sampleIndex n t i \<and> sampleIndex n t i \<le> int n - 2"
    if "i \<in> set [1..t - 2]" for i
    using that sampleIndex_range [OF assms, of i] by simp
  have "sorted_wrt (<) [1..t - 2]"
    by (simp add: strict_sorted_iff)
  then have "sorted_wrt (\<lambda>i j. ?f i < ?f j) [1..t - 2]"
  proof (rule sorted_wrt_mono_rel [rotated])
    fix i j assume ij: "i \<in> set [1..t - 2]" "j \<in> set [1..t - 2]" "i < j"
    then have "sampleIndex n t i < sampleIndex n t j"
      using sampleIndex_strict [OF assms, of i j] by simp
    with rng [OF ij(1)] show "?f i < ?f j" by linarith
  qed
  then have mid: "sorted_wrt (<) (map ?f [1..t - 2])"
    by (simp only: sorted_wrt_map)
  have lo: "0 < ?f i" if "i \<in> set [1..t - 2]" for i
    using rng [OF that] by linarith
  have hi: "?f i < n - 1" if "i \<in> set [1..t - 2]" for i
    using rng [OF that] by linarith
  have "0 < n - 1" using assms(1,2) by linarith
  with mid lo hi show ?thesis
    by (auto simp add: sampleIndices_def sorted_wrt_append)
qed

lemma sampleIndices_in_range:
  assumes "1 \<le> t" and "t < int n" and "n < 2 ^ 32" and "k \<in> set (sampleIndices n t)"
  shows "k < n"
proof -
  have pos: "0 < n" using assms(1,2) by linarith
  from assms(4) consider "k = 0" | "k = n - 1"
    | i where "i \<in> set [1..t - 2]" "k = nat (sampleIndex n t i)"
    by (auto simp add: sampleIndices_def)
  then show ?thesis
  proof cases
    case 3
    with sampleIndex_range [OF assms(1-3), of i] show ?thesis by simp
  qed (use pos in simp_all)
qed

lemma downsampleData_interior_nth:
  assumes "0 \<le> targetPoints" and "targetPoints < int (length data)" and "length data < 2 ^ 32"
    and "1 \<le> i" and "i \<le> targetPoints - 2"
  shows "downsampleData data targetPoints ! nat i
           = Some (data ! nat (sampleIndex (length data) targetPoints i))"
proof -
  let ?f = "\<lambda>i. Some (data ! nat (sampleIndex (length data) targetPoints i))"
  obtain k where k: "nat i = Suc k" using assms(4) by (cases "nat i") simp_all
  then have ik: "i = 1 + int k" using assms(4) by linarith
  have klen: "k < length [1..targetPoints - 2]" using ik assms(5) by simp
  have "[1..targetPoints - 2] ! k = 1 + int k"
    using ik assms(5) by (intro nth_upto) simp
  with klen have "map ?f [1..targetPoints - 2] ! k = ?f i"
    using ik by simp
  with klen show ?thesis
    by (simp add: downsampleData_samples [OF assms(1-3)] k nth_append)
qed

lemma sampleIndex_5_3_1: "sampleIndex 5 3 1 = 1"
  by (simp add: sampleIndex_def Math_floor_def num_mul_def num_div_def
      fl64_def ulp_def binade_def ilog2.simps round_even_def)

lemma sampleIndices_5_3: "sampleIndices 5 3 = [0, 1, 4]"
  by (simp add: sampleIndices_def sampleIndex_5_3_1 upto.simps)

lemma length_five: "length [10::nat, 11, 12, 13, 14] = 5"
  by simp

text \<open>
  Claim C9, as amended.  For a series longer than the budget and a budget of at least
  two points, the sampled series has exactly budget entries, and its entries are the raw
  points at the indices \<open>sampleIndices\<close>, which increase strictly and lie inside the
  series: a subsequence of the input, with no sample repeated and the order kept.  The
  length of the series is below \<open>2^32\<close>, as the length of every JavaScript array is.
\<close>

theorem downsampleData_subsequence:
  assumes "2 \<le> targetPoints" and "targetPoints < int (length data)" and "length data < 2 ^ 32"
  shows "length (downsampleData data targetPoints) = nat targetPoints
         \<and> downsampleData data targetPoints
             = map (\<lambda>k. Some (data ! k)) (sampleIndices (length data) targetPoints)
         \<and> sorted_wrt (<) (sampleIndices (length data) targetPoints)
         \<and> (\<forall>k \<in> set (sampleIndices (length data) targetPoints). k < length data)"
proof -
  have t0: "0 \<le> targetPoints" and t1: "1 \<le> targetPoints" using assms(1) by simp_all
  have eq: "downsampleData data targetPoints
             = map (\<lambda>k. Some (data ! k)) (sampleIndices (length data) targetPoints)"
    using t0 assms(2,3) by (rule downsampleData_indices)
  have len: "length (downsampleData data targetPoints) = nat targetPoints"
    by (simp only: eq length_map length_sampleIndices [OF assms(1)])
  have srt: "sorted_wrt (<) (sampleIndices (length data) targetPoints)"
    using t1 assms(2,3) by (rule sampleIndices_sorted)
  have rng: "\<forall>k \<in> set (sampleIndices (length data) targetPoints). k < length data"
    using sampleIndices_in_range [OF t1 assms(2,3)] by blast
  from len eq srt rng show ?thesis by blast
qed

theorem downsampleData_subsequence_witness:
  "(2::int) \<le> 3 \<and> 3 < int (length [10::nat, 11, 12, 13, 14])
   \<and> length [10::nat, 11, 12, 13, 14] < 2 ^ 32
   \<and> length (downsampleData [10::nat, 11, 12, 13, 14] 3) = 3
   \<and> downsampleData [10::nat, 11, 12, 13, 14] 3 = [Some 10, Some 11, Some 14]
   \<and> sorted_wrt (<) (sampleIndices 5 3)"
proof -
  have "(2::int) \<le> 3" and "3 < int (length [10::nat, 11, 12, 13, 14])"
    and "length [10::nat, 11, 12, 13, 14] < 2 ^ 32"
    by simp_all
  from downsampleData_subsequence [OF this] show ?thesis
    unfolding length_five by (simp add: sampleIndices_5_3)
qed

text \<open>
  Claim C9 as stated fails for a budget below two: the program always returns the first
  and the last point.  Three points with a budget of one give two entries, not one; and
  one point with a budget of zero gives that point twice.
\<close>

theorem downsampleData_budget_below_two:
  "downsampleData [7::nat, 8, 9] 1 = [Some 7, Some 9]
   \<and> length (downsampleData [7::nat, 8, 9] 1) = 2
   \<and> downsampleData [7::nat] 0 = [Some 7, Some 7]"
proof -
  have "(0::int) \<le> 1" and "1 < int (length [7::nat, 8, 9])" and "length [7::nat, 8, 9] < 2 ^ 32"
    by simp_all
  from downsampleData_samples [OF this]
  have a: "downsampleData [7::nat, 8, 9] 1 = [Some 7, Some 9]"
    by (simp add: upto.simps)
  have "(0::int) \<le> 0" and "0 < int (length [7::nat])" and "length [7::nat] < 2 ^ 32"
    by simp_all
  from downsampleData_samples [OF this]
  have b: "downsampleData [7::nat] 0 = [Some 7, Some 7]"
    by (simp add: upto.simps)
  from a b show ?thesis by simp
qed

text \<open>
  Claim C1, as amended.  For a series longer than the budget the result is the first
  point, the interior points \<open>i = 1, \<dots>, budget - 2\<close> and the last point, and
  interior point \<open>i\<close> is the raw sample at index \<open>sampleIndex\<close>: the floor of the
  product of \<open>i\<close> and the stride \<open>length / budget\<close>, quotient and product rounded to
  binary64.  That index lies strictly between the first and the last index.
\<close>

theorem downsampleData_floor_stride:
  assumes "0 \<le> targetPoints" and "targetPoints < int (length data)" and "length data < 2 ^ 32"
  shows "downsampleData data targetPoints =
           Some (hd data)
             # map (\<lambda>i. Some (data ! nat (sampleIndex (length data) targetPoints i)))
                 [1..targetPoints - 2]
             @ [Some (last data)]
         \<and> (\<forall>i. 1 \<le> i \<and> i \<le> targetPoints - 2 \<longrightarrow>
               downsampleData data targetPoints ! nat i
                 = Some (data ! nat (sampleIndex (length data) targetPoints i))
               \<and> 0 < sampleIndex (length data) targetPoints i
               \<and> sampleIndex (length data) targetPoints i < int (length data) - 1)"
proof (intro conjI allI impI)
  show "downsampleData data targetPoints =
           Some (hd data)
             # map (\<lambda>i. Some (data ! nat (sampleIndex (length data) targetPoints i)))
                 [1..targetPoints - 2]
             @ [Some (last data)]"
    using assms by (rule downsampleData_samples)
next
  fix i assume "1 \<le> i \<and> i \<le> targetPoints - 2"
  then have i: "1 \<le> i" "i \<le> targetPoints - 2" by simp_all
  then have t: "1 \<le> targetPoints" by linarith
  show "downsampleData data targetPoints ! nat i
          = Some (data ! nat (sampleIndex (length data) targetPoints i))"
    using assms i by (rule downsampleData_interior_nth)
  from sampleIndex_range [OF t assms(2,3) i]
  show "0 < sampleIndex (length data) targetPoints i"
    and "sampleIndex (length data) targetPoints i < int (length data) - 1"
    by linarith+
qed

theorem downsampleData_floor_stride_witness:
  "(0::int) \<le> 3 \<and> 3 < int (length [10::nat, 11, 12, 13, 14])
   \<and> length [10::nat, 11, 12, 13, 14] < 2 ^ 32
   \<and> downsampleData [10::nat, 11, 12, 13, 14] 3 = [Some 10, Some 11, Some 14]"
proof -
  have "(0::int) \<le> 3" and "3 < int (length [10::nat, 11, 12, 13, 14])"
    and "length [10::nat, 11, 12, 13, 14] < 2 ^ 32"
    by simp_all
  from downsampleData_floor_stride [OF this] show ?thesis
    unfolding length_five by (simp add: sampleIndex_5_3_1 upto.simps)
qed

text \<open>
  Claim C1 as stated fails: the interior point is taken at the floor of the stride
  position, not at the index nearest to it.  With five points and a budget of three the
  stride position of the interior point is \<open>5/3\<close>; the program takes the point at
  index 1 where the nearest index is 2.
\<close>

theorem downsampleData_not_nearest:
  "downsampleData [10::nat, 11, 12, 13, 14] 3 ! 1 = Some 11
   \<and> Some ([10::nat, 11, 12, 13, 14] ! nat (nearestIndex 5 3 1)) = Some 12"
proof -
  have "(0::int) \<le> 3" and "3 < int (length [10::nat, 11, 12, 13, 14])"
    and "length [10::nat, 11, 12, 13, 14] < 2 ^ 32"
    by simp_all
  from downsampleData_samples [OF this]
  have "downsampleData [10::nat, 11, 12, 13, 14] 3 = [Some 10, Some 11, Some 14]"
    unfolding length_five by (simp add: sampleIndex_5_3_1 upto.simps)
  moreover have "nearestIndex 5 3 1 = 2"
    by (simp add: nearestIndex_def round_def)
  ultimately show ?thesis by simp
qed

text \<open>
  The rounding of the stride is visible at the default budget: for 87 points the stride
  \<open>87/75\<close> rounds below \<open>1.16\<close>, and iteration 25 reads index 28 although
  \<open>25 * 87 / 75 = 29\<close>.
\<close>

lemma sampleIndex_87: "sampleIndex 87 75 25 = 28 \<and> \<lfloor>25 * (87 / 75 :: real)\<rfloor> = 29"
  by (simp add: sampleIndex_def Math_floor_def num_mul_def num_div_def
      fl64_def ulp_def binade_def ilog2.simps round_even_def)

section \<open>Properties of the suggestion matcher\<close>










lemma getSuggestions_bit:
  "getSuggestions toLowerCase_ascii ''bit'' [bitcoin, bitcoin_cash] defaultMax
     = [bitcoin, bitcoin_cash]"
  by (simp add: getSuggestions_def defaultMax_def slice0_def toLowerCase_ascii_def lower_char_def
      bitcoin_def bitcoin_cash_def minFieldLength_def)

lemma getSuggestions_bit_rev:
  "getSuggestions toLowerCase_ascii ''bit'' [bitcoin_cash, bitcoin] defaultMax
     = [bitcoin_cash, bitcoin]"
  by (simp add: getSuggestions_def defaultMax_def slice0_def toLowerCase_ascii_def lower_char_def
      bitcoin_def bitcoin_cash_def minFieldLength_def)

lemma minFieldLength_bit: "minFieldLength bitcoin = 3" "minFieldLength bitcoin_cash = 3"
  by (simp_all add: bitcoin_def bitcoin_cash_def minFieldLength_def)






text \<open>
  Claim C6, as amended.  On the input \<^verbatim>\<open>bit\<close> and the directory of the two example
  coins in the order bitcoin, bitcoin-cash the matcher returns both coins, bitcoin first.
  The two coins have the same smallest field length (3, their symbols), so the order is
  the order of the directory, which the stable sort keeps: with the directory reversed,
  bitcoin-cash comes first.  The text of the example is ASCII, on which the lower-casing
  of JavaScript is \<open>toLowerCase_ascii\<close>.
\<close>

theorem getSuggestions_bit_directory_order:
  "getSuggestions toLowerCase_ascii ''bit'' [bitcoin, bitcoin_cash] defaultMax
     = [bitcoin, bitcoin_cash]
   \<and> minFieldLength bitcoin = minFieldLength bitcoin_cash
   \<and> getSuggestions toLowerCase_ascii ''bit'' [bitcoin_cash, bitcoin] defaultMax
       = [bitcoin_cash, bitcoin]"
  by (simp add: getSuggestions_bit getSuggestions_bit_rev minFieldLength_bit)

text \<open>
  Claim C6 as stated fails: bitcoin is not ranked first because of a shorter smallest
  field length, for its smallest field length is not below that of bitcoin-cash.
\<close>

theorem bitcoin_not_shorter:
  "\<not> minFieldLength bitcoin < minFieldLength bitcoin_cash"
  by (simp add: minFieldLength_bit)

section \<open>Properties of the range fetcher\<close>

text \<open>
  Claim C7.  When start date, end date and identifier are all present, a fetch that
  succeeds stores the response as the price series and leaves error and suggestions
  cleared; a fetch that fails leaves the price series cleared, sets the fixed error
  message and sets the suggestions to what the suggestion matcher returns for the typed
  identifier.  When one of the three inputs is missing the state does not change.
\<close>

theorem fetchCryptoData_outcomes:
  "(startDate st = Some start_ms \<and> endDate st = Some end_ms \<and> cryptoName st \<noteq> [] \<longrightarrow>
      (get (rangeRequest toLowerCase (cryptoName st) start_ms end_ms) = Some response \<longrightarrow>
         fetchCryptoData toLowerCase get st
           = st\<lparr> graphData := Some response, error := None, suggestions := [] \<rparr>)
      \<and> (get (rangeRequest toLowerCase (cryptoName st) start_ms end_ms) = None \<longrightarrow>
         fetchCryptoData toLowerCase get st
           = st\<lparr> graphData := None,
                 error := Some ''Token not found or API error. Please check the name or try a suggestion.'',
                 suggestions := getSuggestions toLowerCase (cryptoName st) (allCoins st) 5 \<rparr>))
   \<and> (startDate st = None \<or> endDate st = None \<or> cryptoName st = [] \<longrightarrow>
        fetchCryptoData toLowerCase get st = st)"
  by (auto simp add: fetchCryptoData_def fetchErrorMessage_def defaultMax_def Let_def
      split: option.splits)

text \<open>
  Claim C7 on \<open>idleWidget\<close>: a successful fetch, a failed one, and a fetch with the end
  date missing.
\<close>

theorem fetchCryptoData_outcomes_witness:
  "fetchCryptoData toLowerCase_ascii (\<lambda>r. Some \<lparr> prices = [(1700000000000, 35000)] \<rparr>) idleWidget
     = idleWidget\<lparr> graphData := Some \<lparr> prices = [(1700000000000, 35000)] \<rparr>,
                    error := None, suggestions := [] \<rparr>
   \<and> fetchCryptoData toLowerCase_ascii (\<lambda>r. None) idleWidget
     = idleWidget\<lparr> graphData := None,
                    error := Some ''Token not found or API error. Please check the name or try a suggestion.'',
                    suggestions := [bitcoin, bitcoin_cash] \<rparr>
   \<and> fetchCryptoData toLowerCase_ascii (\<lambda>r. None) (idleWidget\<lparr> endDate := None \<rparr>)
     = idleWidget\<lparr> endDate := None \<rparr>"
  using
    fetchCryptoData_outcomes [of idleWidget 1700000000000 1700086400000
      "\<lambda>r. Some \<lparr> prices = [(1700000000000, 35000)] \<rparr>" toLowerCase_ascii
      "\<lparr> prices = [(1700000000000, 35000)] \<rparr>"]
    fetchCryptoData_outcomes [of idleWidget 1700000000000 1700086400000 "\<lambda>r. None"
      toLowerCase_ascii]
    fetchCryptoData_outcomes [of "idleWidget\<lparr> endDate := None \<rparr>" _ _ "\<lambda>r. None"
      toLowerCase_ascii]
  by (simp add: idleWidget_def getSuggestions_bit [unfolded defaultMax_def])

section \<open>Properties of smoothing\<close>

lemma mirrorIndex_before: "i \<le> n \<Longrightarrow> mirrorIndex n (int i - 1) = i - 1"
  by (cases i) (simp_all add: mirrorIndex_def)

lemma mirrorIndex_after:
  "Suc i < n \<Longrightarrow> mirrorIndex n (int i + 2) = (if i + 2 < n then i + 2 else i + 1)"
  by (auto simp add: mirrorIndex_def nat_add_distrib)

lemma smooth_loop_step:
  assumes "Suc i < length points"
  shows "smooth_loop str points i path
           = smooth_loop str points (Suc i) (path @ segment str points i)"
proof -
  have guard: "int i < int (length points) - 1" using assms by simp
  have ne: "points \<noteq> []" using assms by auto
  have le: "i \<le> length points" using assms by simp
  have p0: "(if i > 0 then js_index points (int i - 1) else js_index points 0)
              = Some (points ! (i - 1))"
    using assms ne by (cases i) (simp_all add: js_index_def)
  have p1: "js_index points (int i) = Some (points ! i)"
    using assms by (simp add: js_index_def)
  have p2: "js_index points (int i + 1) = Some (points ! Suc i)"
    using assms by (simp add: js_index_def nat_add_distrib)
  show ?thesis
  proof (cases "i + 2 < length points")
    case True
    then have p3: "js_index points (int i + 2) = Some (points ! (i + 2))"
      by (simp add: js_index_def nat_add_distrib)
    from True have c: "int i < int (length points) - 2" by simp
    show ?thesis
      using True
      by (subst smooth_loop.simps)
        (simp add: guard p0 p1 p2 p3 c segment_def curveTo_def controlPoint1_def
          controlPoint2_def Let_def mirrorIndex_before [OF le] mirrorIndex_after [OF assms])
  next
    case False
    then have c: "\<not> int i < int (length points) - 2" by simp
    show ?thesis
      using False
      by (subst smooth_loop.simps)
        (simp add: guard p0 p1 p2 c segment_def curveTo_def controlPoint1_def
          controlPoint2_def Let_def mirrorIndex_before [OF le] mirrorIndex_after [OF assms])
  qed
qed

lemma smooth_loop_closed:
  assumes "i < length points"
  shows "smooth_loop str points i path
           = Some (path @ concat (map (segment str points) [i..<length points - 1]))"
  using assms
proof (induction "length points - i" arbitrary: i path)
  case 0
  then show ?case by simp
next
  case (Suc k)
  show ?case
  proof (cases "Suc i < length points")
    case True
    then have up: "[i..<length points - 1] = i # [Suc i..<length points - 1]"
      by (simp add: upt_conv_Cons)
    from Suc(2) have "k = length points - Suc i" by simp
    from Suc(1) [OF this True]
    have "smooth_loop str points (Suc i) (path @ segment str points i)
            = Some ((path @ segment str points i)
                @ concat (map (segment str points) [Suc i..<length points - 1]))" .
    then show ?thesis
      by (simp only: smooth_loop_step [OF True] up list.map concat.simps append_assoc)
  next
    case False
    with Suc(3) have "\<not> int i < int (length points) - 1" and "[i..<length points - 1] = []"
      by simp_all
    then show ?thesis
      by (subst smooth_loop.simps) simp
  qed
qed

lemma createSmoothPath_closed:
  assumes "2 \<le> length points"
  shows "createSmoothPath str points
           = Some (moveTo str (points ! 0)
               @ concat (map (segment str points) [0..<length points - 1]))"
proof -
  have "js_index points 0 = Some (points ! 0)"
    using assms by (auto simp add: js_index_def)
  moreover have "0 < length points" and "\<not> length points < 2" and "points \<noteq> []"
    using assms by auto
  ultimately show ?thesis
    by (simp add: createSmoothPath_def smooth_loop_closed moveTo_def)
qed

lemma mirrorIndex_in_range:
  assumes "Suc i < n"
  shows "mirrorIndex n (int i - 1) < n" and "mirrorIndex n (int i + 2) < n"
  using assms by (simp_all add: mirrorIndex_before mirrorIndex_after)

text \<open>
  Claim C8.  For at least two points the function returns a path (it never reads a
  point outside the list): a move to the first point, then for each \<open>i\<close> a cubic
  segment that ends at point \<open>i + 1\<close>, so the path passes through all the points.  The
  control points of segment \<open>i\<close> are \<open>p1 + (p2 - p0) * tension\<close> and
  \<open>p2 - (p3 - p1) * tension\<close>, computed in JavaScript numbers, with \<open>p1\<close> and
  \<open>p2\<close> the ends of the segment, \<open>p0\<close> the point before \<open>p1\<close> and \<open>p3\<close> the point
  after \<open>p2\<close>; at the two ends of the series the missing neighbour is the mirrored one,
  which is the end point itself, and every index used lies inside the series.  The
  tension is the number \<^verbatim>\<open>0.2\<close>.
\<close>

theorem createSmoothPath_control_points:
  assumes "2 \<le> length points"
  shows "createSmoothPath numberToString points
           = Some (moveTo numberToString (points ! 0)
               @ concat (map (\<lambda>i. curveTo numberToString (controlPoint1 points i)
                                  (controlPoint2 points i) (points ! (i + 1)))
                           [0..<length points - 1]))
         \<and> (\<forall>i < length points - 1.
               controlPoint1 points i
                 = (let p0 = points ! (if i = 0 then 0 else i - 1);
                        p1 = points ! i;
                        p2 = points ! (i + 1)
                    in \<lparr> x_coord = num_add (x_coord p1)
                                      (num_mul (num_sub (x_coord p2) (x_coord p0)) tension),
                         y_coord = num_add (y_coord p1)
                                      (num_mul (num_sub (y_coord p2) (y_coord p0)) tension) \<rparr>)
               \<and> controlPoint2 points i
                 = (let p1 = points ! i;
                        p2 = points ! (i + 1);
                        p3 = points ! (if i = length points - 2 then length points - 1 else i + 2)
                    in \<lparr> x_coord = num_sub (x_coord p2)
                                      (num_mul (num_sub (x_coord p3) (x_coord p1)) tension),
                         y_coord = num_sub (y_coord p2)
                                      (num_mul (num_sub (y_coord p3) (y_coord p1)) tension) \<rparr>)
               \<and> mirrorIndex (length points) (int i - 1) = (if i = 0 then 0 else i - 1)
               \<and> mirrorIndex (length points) (int i + 2)
                   = (if i = length points - 2 then length points - 1 else i + 2)
               \<and> mirrorIndex (length points) (int i - 1) < length points
               \<and> mirrorIndex (length points) (int i + 2) < length points)
         \<and> tension = fl64 0.2"
proof (intro conjI allI impI)
  show "createSmoothPath numberToString points
           = Some (moveTo numberToString (points ! 0)
               @ concat (map (\<lambda>i. curveTo numberToString (controlPoint1 points i)
                                  (controlPoint2 points i) (points ! (i + 1)))
                           [0..<length points - 1]))"
    using createSmoothPath_closed [OF assms, of numberToString]
    by (simp add: segment_def [abs_def])
  show "tension = fl64 0.2" by (simp add: tension_def)
next
  fix i assume "i < length points - 1"
  then have i: "Suc i < length points" by simp
  then have le: "i \<le> length points" by simp
  show before: "mirrorIndex (length points) (int i - 1) = (if i = 0 then 0 else i - 1)"
    by (simp add: mirrorIndex_before [OF le])
  show after: "mirrorIndex (length points) (int i + 2)
          = (if i = length points - 2 then length points - 1 else i + 2)"
    using i by (auto simp add: mirrorIndex_after)
  show "mirrorIndex (length points) (int i - 1) < length points"
    and "mirrorIndex (length points) (int i + 2) < length points"
    using i by (rule mirrorIndex_in_range)+
  show "controlPoint1 points i
          = (let p0 = points ! (if i = 0 then 0 else i - 1);
                 p1 = points ! i;
                 p2 = points ! (i + 1)
             in \<lparr> x_coord = num_add (x_coord p1)
                               (num_mul (num_sub (x_coord p2) (x_coord p0)) tension),
                  y_coord = num_add (y_coord p1)
                               (num_mul (num_sub (y_coord p2) (y_coord p0)) tension) \<rparr>)"
    unfolding controlPoint1_def before ..
  show "controlPoint2 points i
          = (let p1 = points ! i;
                 p2 = points ! (i + 1);
                 p3 = points ! (if i = length points - 2 then length points - 1 else i + 2)
             in \<lparr> x_coord = num_sub (x_coord p2)
                               (num_mul (num_sub (x_coord p3) (x_coord p1)) tension),
                  y_coord = num_sub (y_coord p2)
                               (num_mul (num_sub (y_coord p3) (y_coord p1)) tension) \<rparr>)"
    unfolding controlPoint2_def after ..
qed

lemma tension_value: "tension = 3602879701896397 / 18014398509481984"
  by (simp add: tension_def fl64_def ulp_def binade_def round_even_def ilog2.simps)

lemma num_examples:
  "num_sub 5 0 = 5" "num_sub 10 0 = 10" "num_sub 5 5 = 0" "num_sub 10 10 = 0"
  "num_mul 5 tension = 1" "num_mul 10 tension = 2"
  "num_add 0 1 = 1" "num_add 0 2 = 2" "num_sub 5 1 = 4" "num_sub 10 2 = 8"
  by (simp_all add: tension_value num_add_def num_sub_def num_mul_def fl64_def ulp_def binade_def
      round_even_def ilog2.simps)

lemma integerToString_examples:
  "integerToString 0 = ''0''" "integerToString 1 = ''1''" "integerToString 2 = ''2''"
  "integerToString 4 = ''4''" "integerToString 5 = ''5''" "integerToString 8 = ''8''"
  "integerToString 10 = ''10''"
  by (simp_all add: integerToString_def digits.simps digit_char_def)

lemma samplePoints_control:
  "controlPoint1 samplePoints 0 = \<lparr> x_coord = 1, y_coord = 2 \<rparr>"
  "controlPoint2 samplePoints 0 = \<lparr> x_coord = 4, y_coord = 8 \<rparr>"
  by (simp_all add: controlPoint1_def controlPoint2_def samplePoints_def mirrorIndex_def
      num_examples)

lemma samplePoints_path:
  "moveTo integerToString (samplePoints ! 0)
     @ curveTo integerToString \<lparr> x_coord = 1, y_coord = 2 \<rparr> \<lparr> x_coord = 4, y_coord = 8 \<rparr>
         (samplePoints ! 1)
   = ''M 0 0 C 1 2, 4 8, 5 10''"
  by (simp add: moveTo_def curveTo_def samplePoints_def integerToString_examples)

text \<open>
  Claim C8 on two points, \<open>(0, 0)\<close> and \<open>(5, 10)\<close>, whose control points are integral.
\<close>

theorem createSmoothPath_control_points_witness:
  "2 \<le> length samplePoints
   \<and> createSmoothPath integerToString samplePoints = Some ''M 0 0 C 1 2, 4 8, 5 10''"
proof -
  have two: "2 \<le> length samplePoints" by (simp add: samplePoints_def)
  have "[0..<length samplePoints - 1] = [0]" by (simp add: samplePoints_def)
  with createSmoothPath_control_points [OF two, of integerToString]
  have "createSmoothPath integerToString samplePoints
          = Some (moveTo integerToString (samplePoints ! 0)
              @ curveTo integerToString (controlPoint1 samplePoints 0)
                  (controlPoint2 samplePoints 0) (samplePoints ! 1))"
    by simp
  with two show ?thesis
    by (simp only: samplePoints_control samplePoints_path)
qed

text \<open>
  Claim C10.  For fewer than two points the function returns the empty string.  For
  \<open>n \<ge> 2\<close> points it returns a path that is one move-to command at the first point
  followed by exactly \<open>n - 1\<close> cubic segments, segment \<open>i\<close> ending at point \<open>i + 1\<close>
  and the last one at the last point.
\<close>

theorem createSmoothPath_shape:
  "(length points < 2 \<longrightarrow> createSmoothPath numberToString points = Some [])
   \<and> (2 \<le> length points \<longrightarrow>
        (\<exists>segments.
           createSmoothPath numberToString points
             = Some (moveTo numberToString (hd points) @ concat segments)
           \<and> length segments = length points - 1
           \<and> (\<forall>i < length segments.
                 \<exists>c1 c2. segments ! i = curveTo numberToString c1 c2 (points ! (i + 1)))
           \<and> (\<exists>c1 c2. last segments = curveTo numberToString c1 c2 (last points))))"
proof (intro conjI impI)
  assume "length points < 2"
  then show "createSmoothPath numberToString points = Some []"
    by (simp add: createSmoothPath_def)
next
  assume two: "2 \<le> length points"
  let ?segments = "map (segment numberToString points) [0..<length points - 1]"
  have ne: "points \<noteq> []" using two by auto
  have "createSmoothPath numberToString points
          = Some (moveTo numberToString (hd points) @ concat ?segments)"
    using createSmoothPath_closed [OF two, of numberToString] ne by (simp add: hd_conv_nth)
  moreover have "length ?segments = length points - 1" by simp
  moreover have "\<forall>i < length ?segments.
      \<exists>c1 c2. ?segments ! i = curveTo numberToString c1 c2 (points ! (i + 1))"
  proof (intro allI impI)
    fix i assume "i < length ?segments"
    then have "?segments ! i = segment numberToString points i" by simp
    then show "\<exists>c1 c2. ?segments ! i = curveTo numberToString c1 c2 (points ! (i + 1))"
      unfolding segment_def by blast
  qed
  moreover have "\<exists>c1 c2. last ?segments = curveTo numberToString c1 c2 (last points)"
  proof -
    obtain m where m: "length points = Suc (Suc m)"
      using two by (cases points; cases "tl points") auto
    then have "[0..<length points - 1] = [0..<m] @ [m]"
      by simp
    then have "last ?segments = segment numberToString points m"
      by (simp only: map_append list.map last_snoc)
    moreover have "last points = points ! (m + 1)"
      using m ne by (simp add: last_conv_nth)
    ultimately have "last ?segments
        = curveTo numberToString (controlPoint1 points m) (controlPoint2 points m) (last points)"
      by (simp only: segment_def)
    then show ?thesis by (intro exI)
  qed
  ultimately show "\<exists>segments.
           createSmoothPath numberToString points
             = Some (moveTo numberToString (hd points) @ concat segments)
           \<and> length segments = length points - 1
           \<and> (\<forall>i < length segments.
                 \<exists>c1 c2. segments ! i = curveTo numberToString c1 c2 (points ! (i + 1)))
           \<and> (\<exists>c1 c2. last segments = curveTo numberToString c1 c2 (last points))"
    by (intro exI [of _ ?segments] conjI)
qed

text \<open>Claim C10 on a single point and on the two points of \<open>samplePoints\<close>.\<close>

theorem createSmoothPath_shape_witness:
  "length [\<lparr> x_coord = 0, y_coord = 0 \<rparr>] < 2
   \<and> createSmoothPath integerToString [\<lparr> x_coord = 0, y_coord = 0 \<rparr>] = Some []
   \<and> 2 \<le> length samplePoints
   \<and> (\<exists>segments.
         createSmoothPath integerToString samplePoints
           = Some (moveTo integerToString (hd samplePoints) @ concat segments)
         \<and> length segments = 1)"
proof -
  have one: "length [\<lparr> x_coord = 0, y_coord = 0 \<rparr>] < 2" by simp
  have two: "2 \<le> length samplePoints" and len: "length samplePoints - 1 = 1"
    by (simp_all add: samplePoints_def)
  from createSmoothPath_shape [of "[\<lparr> x_coord = 0, y_coord = 0 \<rparr>]" integerToString] one
  have a: "createSmoothPath integerToString [\<lparr> x_coord = 0, y_coord = 0 \<rparr>] = Some []"
    by blast
  from createSmoothPath_shape [of samplePoints integerToString] two
  have b: "\<exists>segments.
         createSmoothPath integerToString samplePoints
           = Some (moveTo integerToString (hd samplePoints) @ concat segments)
         \<and> length segments = 1"
    unfolding len by blast
  from one a two b show ?thesis by blast
qed

section \<open>Properties of the price labels\<close>

lemma digit_char_cases:
  assumes "d < 10"
  shows "is_digit (digit_char d)" and "digit_value (digit_char d) = d"
proof -
  from assms have "d = 0 \<or> d = 1 \<or> d = 2 \<or> d = 3 \<or> d = 4 \<or> d = 5 \<or> d = 6
    \<or> d = 7 \<or> d = 8 \<or> d = 9"
    by arith
  then show "is_digit (digit_char d)" and "digit_value (digit_char d) = d"
    by (auto simp add: is_digit_def digit_char_def digit_value_def)
qed

lemma decimal_value_snoc: "decimal_value (s @ [c]) = 10 * decimal_value s + digit_value c"
  by (simp add: decimal_value_def)

lemma digits_props: "decimal_value (digits n) = n \<and> (\<forall>c \<in> set (digits n). is_digit c) \<and> digits n \<noteq> []"
proof (induction n rule: digits.induct)
  case (1 n)
  show ?case
  proof (cases "n < 10")
    case True
    then have "digits n = [digit_char n]" by (subst digits.simps) simp
    with True show ?thesis
      by (simp add: decimal_value_def digit_char_cases)
  next
    case False
    then have eq: "digits n = digits (n div 10) @ [digit_char (n mod 10)]"
      by (subst digits.simps) simp
    have "n mod 10 < 10" by simp
    with 1 False show ?thesis
      unfolding eq by (simp add: decimal_value_snoc digit_char_cases)
  qed
qed

lemma decimal_value_zeros: "decimal_value (replicate j CHR ''0'' @ s) = decimal_value s"
proof -
  have "foldl (\<lambda>a c. 10 * a + digit_value c) 0 (replicate j CHR ''0'') = 0"
    by (induction j) (simp_all add: digit_value_def)
  then show ?thesis by (simp add: decimal_value_def)
qed

lemma rounded_decimalI:
  assumes "a \<noteq> []" and "length b = f" and "\<forall>c \<in> set (a @ b). is_digit c"
    and "int (decimal_value (a @ b)) = \<lfloor>x * 10 ^ f + 1 / 2\<rfloor>"
  shows "rounded_decimal f x (a @ ''.'' @ b)"
proof -
  let ?s = "a @ ''.'' @ b"
  have pos: "Suc 0 \<le> length a" using assms(1) by (cases a) simp_all
  have k: "length ?s - f - 1 = length a" "length ?s - f = Suc (length a)"
    using assms(2) by simp_all
  have "f + 2 \<le> length ?s" using assms(2) pos by simp
  moreover have "?s ! length a = CHR ''.''" by (simp add: nth_append)
  moreover have "take (length a) ?s @ drop (Suc (length a)) ?s = a @ b" by simp
  ultimately show ?thesis
    using assms(3,4) unfolding rounded_decimal_def Let_def k by (simp only: list_all_iff) simp
qed

lemma fixed_digits_rounded:
  assumes "0 \<le> x" and "0 < f"
  shows "rounded_decimal f x (fixed_digits f x)"
proof -
  define n where "n = nat \<lfloor>x * 10 ^ f + 1 / 2\<rfloor>"
  define m where "m = (if length (digits n) \<le> f
                       then replicate (f + 1 - length (digits n)) CHR ''0'' @ digits n
                       else digits n)"
  have fd: "fixed_digits f x = take (length m - f) m @ ''.'' @ drop (length m - f) m"
    using assms(2) by (simp add: fixed_digits_def Let_def n_def m_def)
  have len: "f < length m"
    by (simp add: m_def)
  have val: "decimal_value m = n"
    by (simp add: m_def decimal_value_zeros digits_props)
  have dig: "\<forall>c \<in> set m. is_digit c"
    using digits_props [of n] by (auto simp add: m_def is_digit_def)
  have "0 \<le> x * 10 ^ f + 1 / 2" using assms(1) by simp
  then have nn: "int n = \<lfloor>x * 10 ^ f + 1 / 2\<rfloor>" by (simp add: n_def)
  show ?thesis
    unfolding fd
  proof (rule rounded_decimalI)
    show "take (length m - f) m \<noteq> []" using len by auto
    show "length (drop (length m - f) m) = f" using len by simp
    show "\<forall>c \<in> set (take (length m - f) m @ drop (length m - f) m). is_digit c"
      using dig by simp
    show "int (decimal_value (take (length m - f) m @ drop (length m - f) m)) = \<lfloor>x * 10 ^ f + 1 / 2\<rfloor>"
      using val nn by simp
  qed
qed

lemma group3_digits:
  "filter (\<lambda>c. c \<noteq> sep) (group3 sep ds) = filter (\<lambda>c. c \<noteq> sep) ds"
proof (induction sep ds rule: group3.induct)
  case (1 sep ds)
  let ?P = "\<lambda>c. c \<noteq> sep"
  show ?case
  proof (cases "length ds \<le> 3")
    case True
    then show ?thesis by (subst group3.simps) simp
  next
    case False
    with 1 have IH: "filter ?P (group3 sep (take (length ds - 3) ds))
                       = filter ?P (take (length ds - 3) ds)"
      by simp
    have "filter ?P (group3 sep ds)
            = filter ?P (group3 sep (take (length ds - 3) ds))
                @ filter ?P (drop (length ds - 3) ds)"
      using False by (subst group3.simps) simp
    also have "\<dots> = filter ?P (take (length ds - 3) ds @ drop (length ds - 3) ds)"
      by (simp only: IH filter_append)
    also have "\<dots> = filter ?P ds"
      by (simp only: append_take_drop_id)
    finally show ?thesis .
  qed
qed

lemma fl64_pos: "1 \<le> x \<Longrightarrow> 1 \<le> fl64 x"
proof -
  assume x: "1 \<le> x"
  have "(1::real) \<le> 2 ^ nat (binade x)" by simp
  with fl64_bounds(1) [OF x] show ?thesis by linarith
qed

lemma toFixed_positional:
  "0 \<le> x \<Longrightarrow> x < 10 ^ 21 \<Longrightarrow> toFixed str f x = fixed_digits f x"
  by (simp add: toFixed_def Let_def)

lemma toFixed_negative:
  "x < 0 \<Longrightarrow> - (10 ^ 21) < x \<Longrightarrow> toFixed str f x = ''-'' @ fixed_digits f (- x)"
  by (simp add: toFixed_def Let_def)

lemma toLocaleString_enUS_nonneg:
  "0 \<le> k \<Longrightarrow> toLocaleString_enUS k = group3 CHR '','' (digits (nat k))"
  by (simp add: toLocaleString_enUS_def grouped_def)

lemma formatCurrency_1500000: "formatCurrency str loc 1500000 = ''$1.50M''"
  by code_simp

lemma formatCurrency_15000: "formatCurrency str toLocaleString_enUS 15000 = ''$15,000''"
  by (simp add: formatCurrency_def toLocaleString_enUS_def grouped_def Math_round_def
      group3.simps digits.simps digit_char_def Let_def)

lemma formatCurrency_2_5: "formatCurrency str loc 2.5 = ''$2.50''"
  by code_simp

lemma fl64_42: "fl64 0.00042 = 1936908127739503 / 4611686018427387904"
  by (simp add: fl64_def ulp_def binade_def round_even_def ilog2.simps)

lemma formatCurrency_0_00042: "formatCurrency str loc (fl64 0.00042) = ''$0.00042''"
  unfolding fl64_42 by code_simp

lemma is_digit_not_comma: "is_digit c \<Longrightarrow> c \<noteq> CHR '',''"
  unfolding is_digit_def by auto

lemma digits_no_comma: "filter (\<lambda>c. c \<noteq> CHR '','') (digits n) = digits n"
proof -
  have "\<forall>c \<in> set (digits n). is_digit c"
    using digits_props [of n] by blast
  then have "\<forall>c \<in> set (digits n). c \<noteq> CHR '',''"
    using is_digit_not_comma by blast
  then show ?thesis by (simp only: filter_True)
qed

text \<open>
  Claim C4, as amended.  The currency formatter writes \<^verbatim>\<open>$\<close>, then: for
  \<open>v \<ge> 10^6\<close> the quotient \<open>v / 10^6\<close> with two decimals (\<^verbatim>\<open>toFixed(2)\<close>) and
  \<^verbatim>\<open>M\<close>; for \<open>10^4 \<le> v < 10^6\<close> the rounded integer as the locale of the host
  formats it; for \<open>1 \<le> v < 10^4\<close> the value with two decimals; for \<open>v < 1\<close> the
  value with five decimals.  What \<^verbatim>\<open>toFixed(f)\<close> prints is a decimal with exactly
  \<open>f\<close> decimals (\<open>rounded_decimal\<close>, after a minus sign for a negative number) as
  long as the number is below \<open>10^21\<close> in magnitude: in the first case when the
  quotient is below \<open>10^21\<close>, in the last when \<open>v\<close> is above \<open>- 10^21\<close>.  On a
  host with the locale \<^verbatim>\<open>en-US\<close> the rounded integer is printed with its digits in
  groups of three, which only inserts commas into the digits.  Of the four examples of
  the specification, three hold on every host and \<^verbatim>\<open>$15,000\<close> on a host with the
  locale \<^verbatim>\<open>en-US\<close>; the literal \<^verbatim>\<open>0.00042\<close> denotes \<open>fl64 0.00042\<close>.
\<close>

theorem formatCurrency_cases:
  "(1000000 \<le> v \<longrightarrow>
      formatCurrency numberToString toLocaleString v
        = ''$'' @ toFixed numberToString 2 (num_div v 1000000) @ ''M''
      \<and> (num_div v 1000000 < 10 ^ 21 \<longrightarrow>
            toFixed numberToString 2 (num_div v 1000000) = fixed_digits 2 (num_div v 1000000)
            \<and> rounded_decimal 2 (num_div v 1000000) (fixed_digits 2 (num_div v 1000000))))
   \<and> (10000 \<le> v \<and> v < 1000000 \<longrightarrow>
      formatCurrency numberToString toLocaleString v = ''$'' @ toLocaleString (Math_round v)
      \<and> Math_round v = \<lfloor>v + 1 / 2\<rfloor>
      \<and> formatCurrency numberToString toLocaleString_enUS v
          = ''$'' @ group3 CHR '','' (digits (nat \<lfloor>v + 1 / 2\<rfloor>))
      \<and> filter (\<lambda>c. c \<noteq> CHR '','') (group3 CHR '','' (digits (nat \<lfloor>v + 1 / 2\<rfloor>)))
          = digits (nat \<lfloor>v + 1 / 2\<rfloor>))
   \<and> (1 \<le> v \<and> v < 10000 \<longrightarrow>
      formatCurrency numberToString toLocaleString v = ''$'' @ toFixed numberToString 2 v
      \<and> toFixed numberToString 2 v = fixed_digits 2 v
      \<and> rounded_decimal 2 v (fixed_digits 2 v))
   \<and> (v < 1 \<longrightarrow>
      formatCurrency numberToString toLocaleString v = ''$'' @ toFixed numberToString 5 v
      \<and> (0 \<le> v \<longrightarrow>
            toFixed numberToString 5 v = fixed_digits 5 v
            \<and> rounded_decimal 5 v (fixed_digits 5 v))
      \<and> (v < 0 \<and> - (10 ^ 21) < v \<longrightarrow>
            toFixed numberToString 5 v = ''-'' @ fixed_digits 5 (- v)
            \<and> rounded_decimal 5 (- v) (fixed_digits 5 (- v))))
   \<and> formatCurrency numberToString toLocaleString 1500000 = ''$1.50M''
   \<and> formatCurrency numberToString toLocaleString_enUS 15000 = ''$15,000''
   \<and> formatCurrency numberToString toLocaleString 2.5 = ''$2.50''
   \<and> formatCurrency numberToString toLocaleString (fl64 0.00042) = ''$0.00042''"
proof (intro conjI impI)
  assume h: "1000000 \<le> v"
  then show "formatCurrency numberToString toLocaleString v
        = ''$'' @ toFixed numberToString 2 (num_div v 1000000) @ ''M''"
    by (simp add: formatCurrency_def)
  from h have "1 \<le> v / 1000000" by simp
  then have "1 \<le> num_div v 1000000" unfolding num_div_def by (rule fl64_pos)
  then have q0: "0 \<le> num_div v 1000000" by simp
  {
    assume "num_div v 1000000 < 10 ^ 21"
    with q0 show "toFixed numberToString 2 (num_div v 1000000) = fixed_digits 2 (num_div v 1000000)"
      by (rule toFixed_positional)
    from q0 show "rounded_decimal 2 (num_div v 1000000) (fixed_digits 2 (num_div v 1000000))"
      by (rule fixed_digits_rounded) simp
  }
next
  assume h: "10000 \<le> v \<and> v < 1000000"
  then show "formatCurrency numberToString toLocaleString v
               = ''$'' @ toLocaleString (Math_round v)"
    by (simp add: formatCurrency_def)
  show "Math_round v = \<lfloor>v + 1 / 2\<rfloor>"
    by (simp add: Math_round_def)
  from h have "0 \<le> \<lfloor>v + 1 / 2\<rfloor>" by simp
  then have "toLocaleString_enUS (Math_round v) = group3 CHR '','' (digits (nat \<lfloor>v + 1 / 2\<rfloor>))"
    by (simp add: Math_round_def toLocaleString_enUS_nonneg)
  with h show "formatCurrency numberToString toLocaleString_enUS v
                 = ''$'' @ group3 CHR '','' (digits (nat \<lfloor>v + 1 / 2\<rfloor>))"
    by (simp add: formatCurrency_def)
  show "filter (\<lambda>c. c \<noteq> CHR '','') (group3 CHR '','' (digits (nat \<lfloor>v + 1 / 2\<rfloor>)))
          = digits (nat \<lfloor>v + 1 / 2\<rfloor>)"
    by (simp only: group3_digits digits_no_comma)
next
  assume h: "1 \<le> v \<and> v < 10000"
  then show "formatCurrency numberToString toLocaleString v = ''$'' @ toFixed numberToString 2 v"
    by (simp add: formatCurrency_def)
  from h show "toFixed numberToString 2 v = fixed_digits 2 v"
    by (intro toFixed_positional) simp_all
  from h show "rounded_decimal 2 v (fixed_digits 2 v)"
    by (intro fixed_digits_rounded) simp_all
next
  assume h: "v < 1"
  then show "formatCurrency numberToString toLocaleString v = ''$'' @ toFixed numberToString 5 v"
    by (simp add: formatCurrency_def)
  {
    assume "0 \<le> v"
    with h show "toFixed numberToString 5 v = fixed_digits 5 v"
      by (intro toFixed_positional) simp_all
    from \<open>0 \<le> v\<close> show "rounded_decimal 5 v (fixed_digits 5 v)"
      by (intro fixed_digits_rounded) simp_all
  }
  {
    assume n: "v < 0 \<and> - (10 ^ 21) < v"
    then show "toFixed numberToString 5 v = ''-'' @ fixed_digits 5 (- v)"
      by (intro toFixed_negative) simp_all
    from n show "rounded_decimal 5 (- v) (fixed_digits 5 (- v))"
      by (intro fixed_digits_rounded) simp_all
  }
qed (rule formatCurrency_1500000 formatCurrency_15000 formatCurrency_2_5 formatCurrency_0_00042)+

lemma num_div_2500000: "num_div 2500000 1000000 = 5 / 2"
  by (simp add: num_div_def fl64_def ulp_def binade_def round_even_def ilog2.simps)

lemma fixed_digits_2_50: "fixed_digits 2 (5 / 2) = ''2.50''"
  by code_simp

lemma fixed_digits_42_00: "fixed_digits 2 42 = ''42.00''"
  apply (simp add: fixed_digits_def)
  apply (simp add: Let_def)
  apply (simp add: digits.simps)
  apply (simp add: digit_char_def)
  done

lemma fixed_digits_0_50000: "fixed_digits 5 (1 / 2) = ''0.50000''"
  apply (simp add: fixed_digits_def)
  apply (simp add: Let_def)
  apply (simp add: digits.simps)
  apply (simp add: digit_char_def)
  done

lemmas fixed_digits_examples = fixed_digits_2_50 fixed_digits_42_00 fixed_digits_0_50000

lemma toLocaleString_enUS_example: "toLocaleString_enUS 123456 = ''123,456''"
  by (simp add: toLocaleString_enUS_def grouped_def group3.simps digits.simps digit_char_def)

text \<open>
  Claim C4, as amended, on one value in each of the five ranges, on a host with the
  locale \<^verbatim>\<open>en-US\<close>.
\<close>

theorem formatCurrency_cases_witness:
  "formatCurrency integerToString toLocaleString_enUS 2500000 = ''$2.50M''
   \<and> formatCurrency integerToString toLocaleString_enUS 123456 = ''$123,456''
   \<and> formatCurrency integerToString toLocaleString_enUS 42 = ''$42.00''
   \<and> formatCurrency integerToString toLocaleString_enUS (1 / 2) = ''$0.50000''
   \<and> formatCurrency integerToString toLocaleString_enUS (- (1 / 2)) = ''$-0.50000''"
proof -
  have "(1000000::real) \<le> 2500000" and "num_div 2500000 1000000 < 10 ^ 21"
    by (simp_all add: num_div_2500000)
  with formatCurrency_cases [of 2500000 integerToString toLocaleString_enUS]
  have a: "formatCurrency integerToString toLocaleString_enUS 2500000 = ''$2.50M''"
    by (simp add: num_div_2500000 fixed_digits_examples)
  have "(10000::real) \<le> 123456 \<and> (123456::real) < 1000000" by simp
  with formatCurrency_cases [of 123456 integerToString toLocaleString_enUS]
  have b: "formatCurrency integerToString toLocaleString_enUS 123456 = ''$123,456''"
    by (simp add: toLocaleString_enUS_example)
  have "(1::real) \<le> 42 \<and> (42::real) < 10000" by simp
  with formatCurrency_cases [of 42 integerToString toLocaleString_enUS]
  have c: "formatCurrency integerToString toLocaleString_enUS 42 = ''$42.00''"
    by (simp add: fixed_digits_examples)
  have "(1 / 2::real) < 1" and "(0::real) \<le> 1 / 2" by simp_all
  with formatCurrency_cases [of "1 / 2" integerToString toLocaleString_enUS]
  have d: "formatCurrency integerToString toLocaleString_enUS (1 / 2) = ''$0.50000''"
    by (simp add: fixed_digits_examples)
  have "(- (1 / 2)::real) < 1" and "(- (1 / 2)::real) < 0 \<and> - (10 ^ 21) < (- (1 / 2)::real)"
    by simp_all
  with formatCurrency_cases [of "- (1 / 2)" integerToString toLocaleString_enUS]
  have e: "formatCurrency integerToString toLocaleString_enUS (- (1 / 2)) = ''$-0.50000''"
    by (simp add: fixed_digits_examples)
  from a b c d e show ?thesis by simp
qed

text \<open>
  Claim C4 as stated fails.  The grouping is that of the locale of the host, which the
  program does not choose: on a host with the locale \<^verbatim>\<open>de-DE\<close> the value 15000 is
  printed as \<^verbatim>\<open>$15.000\<close>, not as \<^verbatim>\<open>$15,000\<close>.
\<close>

theorem formatCurrency_host_locale:
  "formatCurrency integerToString toLocaleString_deDE 15000 = ''$15.000''
   \<and> formatCurrency integerToString toLocaleString_deDE 15000 \<noteq> ''$15,000''"
  by (simp add: formatCurrency_def toLocaleString_deDE_def grouped_def Math_round_def
      group3.simps digits.simps digit_char_def Let_def)

text \<open>
  Nor does the first case print two decimals for every value: from a quotient of
  \<open>10^21\<close> on, \<^verbatim>\<open>toFixed\<close> returns what the conversion of a number to a string
  returns, which for \<open>10^21\<close> is \<^verbatim>\<open>1e+21\<close> in JavaScript.
\<close>

lemma num_div_1e27: "num_div (10 ^ 27) 1000000 = 10 ^ 21"
  by (simp add: num_div_def fl64_def ulp_def binade_def round_even_def ilog2.simps)

lemma formatCurrency_1e27:
  "formatCurrency numberToString toLocaleString (10 ^ 27)
     = ''$'' @ numberToString (10 ^ 21) @ ''M''"
  unfolding formatCurrency_def toFixed_def num_div_1e27 Let_def by simp

end
